theory Spec2Isabelle
  imports Complex_Main "HOL-Library.List_Lexorder"
begin

section \<open>Python strings\<close>

text \<open>
  A Python \<open>str\<close> is a sequence of Unicode code points. Several characters of the
  patterns in \<open>workout_parser.py\<close> lie outside Latin-1 (the en dash U+2013, the em dash
  U+2014, the bullet U+2022), so a character is modelled by its code point, a natural
  number, and \<open>len\<close> is \<open>length\<close>.
\<close>

type_synonym pystr = "nat list"

definition py :: "string \<Rightarrow> pystr" where
  "py s = map of_char s"

text \<open>
  \<open>str.isspace\<close>, \<open>str.strip\<close>, \<open>str.split\<close> and the class \<open>\s\<close> of \<open>re\<close> all use the same
  test on a code point: the ASCII controls 9-13 and 28-31, the space, and the Unicode
  white space U+0085, U+00A0, U+1680, U+2000-U+200A, U+2028, U+2029, U+202F, U+205F, U+3000.
\<close>

definition isspace :: "nat \<Rightarrow> bool" where
  "isspace c \<longleftrightarrow>
     (9 \<le> c \<and> c \<le> 13) \<or> (28 \<le> c \<and> c \<le> 32) \<or> c = 133 \<or> c = 160 \<or> c = 5760 \<or>
     (8192 \<le> c \<and> c \<le> 8202) \<or> c = 8232 \<or> c = 8233 \<or> c = 8239 \<or> c = 8287 \<or> c = 12288"

definition lstrip :: "pystr \<Rightarrow> pystr" where
  "lstrip s = dropWhile isspace s"

definition rstrip :: "pystr \<Rightarrow> pystr" where
  "rstrip s = rev (dropWhile isspace (rev s))"

definition strip :: "pystr \<Rightarrow> pystr" where
  "strip s = rstrip (lstrip s)"

text \<open>\<open>s.lstrip(chars)\<close> and \<open>s.rstrip(chars)\<close> for a one-character argument.\<close>

definition lstrip_char :: "nat \<Rightarrow> pystr \<Rightarrow> pystr" where
  "lstrip_char ch s = dropWhile (\<lambda>c. c = ch) s"

definition rstrip_char :: "nat \<Rightarrow> pystr \<Rightarrow> pystr" where
  "rstrip_char ch s = rev (dropWhile (\<lambda>c. c = ch) (rev s))"

definition startswith :: "pystr \<Rightarrow> pystr \<Rightarrow> bool" where
  "startswith s p \<longleftrightarrow> take (length p) s = p"

definition endswith :: "pystr \<Rightarrow> pystr \<Rightarrow> bool" where
  "endswith s p \<longleftrightarrow> length p \<le> length s \<and> drop (length s - length p) s = p"

text \<open>\<open>s.split('\n')\<close>: the pieces between line feeds; never an empty list.\<close>

fun split_lines :: "pystr \<Rightarrow> pystr list" where
  "split_lines [] = [[]]"
| "split_lines (c # cs) =
     (if c = 10 then [] # split_lines cs
      else (case split_lines cs of l # ls \<Rightarrow> (c # l) # ls | [] \<Rightarrow> [[c]]))"

text \<open>
  \<open>re.sub(p+, rep, s)\<close> for a character class \<open>p\<close>: every maximal run of characters of the
  class is replaced by \<open>rep\<close>.
\<close>

function sub_runs :: "(nat \<Rightarrow> bool) \<Rightarrow> pystr \<Rightarrow> pystr \<Rightarrow> pystr" where
  "sub_runs p rep [] = []"
| "sub_runs p rep (c # cs) =
     (if p c then rep @ sub_runs p rep (dropWhile p cs) else c # sub_runs p rep cs)"
  by pat_completeness auto
termination
  by (relation "measure (\<lambda>(p, rep, s). length s)")
     (auto simp: le_imp_less_Suc length_dropWhile_le)

text \<open>The decimal text of an integer, as \<open>str(n)\<close> and an f-string print it.\<close>

function digits_of :: "nat \<Rightarrow> pystr" where
  "digits_of n = (if n < 10 then [48 + n] else digits_of (n div 10) @ [48 + n mod 10])"
  by pat_completeness auto
termination
  by (relation "measure id") auto

definition str_of_int :: "int \<Rightarrow> pystr" where
  "str_of_int i = (if i < 0 then 45 # digits_of (nat (- i)) else digits_of (nat i))"

section \<open>The libraries the code calls\<close>

text \<open>
  The source relies on tables and functions that are no part of the repository: the
  Unicode database of the Python runtime (which code points are alphanumeric, which are
  decimal digits and with what value, the lower and upper case of a string), the limit of
  the interpreter on the number of digits that \<open>int\<close> converts
  (\<open>sys.get_int_max_str_digits()\<close>: 4300 unless configured, and when configured 0, for no
  limit, or at least 640) and the scorer
  \<open>token_sort_ratio\<close> of the package \<open>thefuzz\<close>. They are parameters of the model.
  Case conversion takes a whole string, as \<open>str.lower\<close> is context sensitive and may change
  the length. The scorer is the one that \<open>process.extractBests\<close> ranks with: the score as
  the library computes it, a float between 0 and 100 that is not yet rounded.
\<close>

record libs =
  uni_isalnum :: "nat \<Rightarrow> bool"
  uni_decimal :: "nat \<Rightarrow> nat option"
  str_lower :: "pystr \<Rightarrow> pystr"
  str_upper :: "pystr \<Rightarrow> pystr"
  int_max_str_digits :: nat
  token_sort_ratio :: "pystr \<Rightarrow> pystr \<Rightarrow> real"

text \<open>The classes \<open>\w\<close> and \<open>\d\<close> of \<open>re\<close> on \<open>str\<close> patterns.\<close>

definition is_word :: "libs \<Rightarrow> nat \<Rightarrow> bool" where
  "is_word L c \<longleftrightarrow> uni_isalnum L c \<or> c = 95"

definition is_digit :: "libs \<Rightarrow> nat \<Rightarrow> bool" where
  "is_digit L c \<longleftrightarrow> uni_decimal L c \<noteq> None"

subsection \<open>A reference instance for ASCII text\<close>

text \<open>
  To evaluate the model on concrete inputs the parameters are instantiated by
  \<open>ascii_libs\<close>. On the code points below 128 it has the values of CPython; every other
  code point is taken as neither alphanumeric nor a digit and as having no case, which is
  what CPython says of the multiplication sign, the dashes and the bullet used below.
  The digit limit is the default, 4300.
  The scorer follows the algorithm of \<open>thefuzz\<close>: both strings are processed
  (Latin-1 supplement characters dropped, every non-alphanumeric character replaced by a
  space, lower-cased, stripped), their white-space separated tokens are sorted and joined
  by a space, and the score is \<open>100 * 2 * M / T\<close>, \<open>M\<close> the length of a longest common
  subsequence and \<open>T\<close> the sum of the lengths; two empty strings score 100. The library
  computes the quotient in floating point, the reference gives the exact quotient: the two
  can differ in the last place, which matters only where a score is a half away from an
  integer, and no score used below is.
\<close>

definition ascii_isalnum :: "nat \<Rightarrow> bool" where
  "ascii_isalnum c \<longleftrightarrow> (48 \<le> c \<and> c \<le> 57) \<or> (65 \<le> c \<and> c \<le> 90) \<or> (97 \<le> c \<and> c \<le> 122)"

definition ascii_decimal :: "nat \<Rightarrow> nat option" where
  "ascii_decimal c = (if 48 \<le> c \<and> c \<le> 57 then Some (c - 48) else None)"

definition ascii_lower :: "pystr \<Rightarrow> pystr" where
  "ascii_lower s = map (\<lambda>c. if 65 \<le> c \<and> c \<le> 90 then c + 32 else c) s"

definition ascii_upper :: "pystr \<Rightarrow> pystr" where
  "ascii_upper s = map (\<lambda>c. if 97 \<le> c \<and> c \<le> 122 then c - 32 else c) s"

text \<open>\<open>str.split()\<close>: the maximal runs of characters that are not white space.\<close>

function split_ws :: "pystr \<Rightarrow> pystr list" where
  "split_ws s =
     (case dropWhile isspace s of
        [] \<Rightarrow> []
      | c # cs \<Rightarrow> takeWhile (\<lambda>x. \<not> isspace x) (c # cs) # split_ws (dropWhile (\<lambda>x. \<not> isspace x) cs))"
  by pat_completeness auto
termination
proof (relation "measure length", goal_cases)
  case 1
  show ?case by simp
next
  case (2 s c cs)
  have "length (dropWhile (\<lambda>x. \<not> isspace x) cs) \<le> length cs"
    by (rule length_dropWhile_le)
  moreover have "length (c # cs) \<le> length s"
    using 2 length_dropWhile_le [of isspace s] by simp
  ultimately show ?case by simp
qed

fun str_le :: "pystr \<Rightarrow> pystr \<Rightarrow> bool" where
  "str_le [] ys = True"
| "str_le (x # xs) [] = False"
| "str_le (x # xs) (y # ys) = (x < y \<or> (x = y \<and> str_le xs ys))"

fun insert_token :: "pystr \<Rightarrow> pystr list \<Rightarrow> pystr list" where
  "insert_token t [] = [t]"
| "insert_token t (u # us) = (if str_le t u then t # u # us else u # insert_token t us)"

definition sort_tokens :: "pystr list \<Rightarrow> pystr list" where
  "sort_tokens ts = foldr insert_token ts []"

fun join_space :: "pystr list \<Rightarrow> pystr" where
  "join_space [] = []"
| "join_space [t] = t"
| "join_space (t # u # us) = t @ 32 # join_space (u # us)"

definition full_process :: "pystr \<Rightarrow> pystr" where
  "full_process s =
     strip (ascii_lower (map (\<lambda>c. if ascii_isalnum c then c else 32)
       (filter (\<lambda>c. \<not> (128 \<le> c \<and> c \<le> 255)) s)))"

fun lcs_row :: "nat \<Rightarrow> pystr \<Rightarrow> nat list \<Rightarrow> nat \<Rightarrow> nat list" where
  "lcs_row x (y # ys) (d # u # us) l =
     (let v = (if x = y then d + 1 else max u l) in v # lcs_row x ys (u # us) v)"
| "lcs_row x ys us l = []"

definition lcs_length :: "pystr \<Rightarrow> pystr \<Rightarrow> nat" where
  "lcs_length xs ys =
     last (foldl (\<lambda>row x. 0 # lcs_row x ys row 0) (replicate (Suc (length ys)) 0) xs)"

definition indel_ratio :: "pystr \<Rightarrow> pystr \<Rightarrow> real" where
  "indel_ratio a b =
     (if a = [] \<and> b = [] then 100
      else real (200 * lcs_length a b) / real (length a + length b))"

definition ascii_token_sort_ratio :: "pystr \<Rightarrow> pystr \<Rightarrow> real" where
  "ascii_token_sort_ratio s1 s2 =
     indel_ratio (join_space (sort_tokens (split_ws (full_process s1))))
                 (join_space (sort_tokens (split_ws (full_process s2))))"

definition ascii_libs :: libs where
  "ascii_libs = \<lparr> uni_isalnum = ascii_isalnum, uni_decimal = ascii_decimal,
     str_lower = ascii_lower, str_upper = ascii_upper, int_max_str_digits = 4300,
     token_sort_ratio = ascii_token_sort_ratio \<rparr>"

section \<open>Regular expressions\<close>

text \<open>
  A pattern is modelled by the list of all the ways it matches a prefix of the subject, in the
  order in which the backtracking matcher of \<open>re\<close> tries them; each way gives the
  captured groups and the rest of the subject. \<open>re.match\<close> returns the first one.
  A greedy repetition tries the longest run first, a lazy one the shortest, an optional part
  is tried before its absence, and an alternative from left to right.
\<close>

type_synonym 'a rx = "pystr \<Rightarrow> ('a \<times> pystr) list"

definition rx_return :: "'a \<Rightarrow> 'a rx" where
  "rx_return x s = [(x, s)]"

definition rx_bind :: "'a rx \<Rightarrow> ('a \<Rightarrow> 'b rx) \<Rightarrow> 'b rx" where
  "rx_bind m f s = concat (map (\<lambda>(x, r). f x r) (m s))"

definition rx_then :: "'a rx \<Rightarrow> 'b rx \<Rightarrow> 'b rx" where
  "rx_then m k = rx_bind m (\<lambda>_. k)"

definition rx_one :: "(nat \<Rightarrow> bool) \<Rightarrow> nat rx" where
  "rx_one P s = (case s of [] \<Rightarrow> [] | c # r \<Rightarrow> if P c then [(c, r)] else [])"

text \<open>\<open>P{n,}\<close> and \<open>P{n,}?\<close> for a character class \<open>P\<close>; the group is the run taken.\<close>

definition rx_greedy :: "nat \<Rightarrow> (nat \<Rightarrow> bool) \<Rightarrow> pystr rx" where
  "rx_greedy n P s =
     map (\<lambda>i. (take i s, drop i s)) (rev [n..<Suc (length (takeWhile P s))])"

definition rx_lazy :: "nat \<Rightarrow> (nat \<Rightarrow> bool) \<Rightarrow> pystr rx" where
  "rx_lazy n P s =
     map (\<lambda>i. (take i s, drop i s)) [n..<Suc (length (takeWhile P s))]"

definition rx_opt :: "'a rx \<Rightarrow> 'a option rx" where
  "rx_opt m s = map (\<lambda>(x, r). (Some x, r)) (m s) @ [(None, s)]"

definition rx_alt :: "'a rx \<Rightarrow> 'a rx \<Rightarrow> 'a rx" where
  "rx_alt m k s = m s @ k s"

text \<open>\<open>$\<close> without \<open>re.MULTILINE\<close>: the end of the subject, or just before a final line feed.\<close>

definition rx_eos :: "unit rx" where
  "rx_eos s = (if s = [] \<or> s = [10] then [((), s)] else [])"

text \<open>
  A lower-case ASCII letter \<open>p\<close> of a pattern compiled with \<open>re.IGNORECASE\<close> matches itself,
  its capital and the code points that \<open>re\<close> folds to it: U+017F for \<open>s\<close>, U+0130 and U+0131
  for \<open>i\<close>, U+212A for \<open>k\<close>.
\<close>

definition ci :: "nat \<Rightarrow> nat \<Rightarrow> bool" where
  "ci p c \<longleftrightarrow> c = p \<or> (97 \<le> p \<and> p \<le> 122 \<and> c + 32 = p) \<or> (p = 115 \<and> c = 383) \<or>
     (p = 105 \<and> (c = 304 \<or> c = 305)) \<or> (p = 107 \<and> c = 8490)"

fun rx_lit_ci :: "pystr \<Rightarrow> unit rx" where
  "rx_lit_ci [] s = [((), s)]"
| "rx_lit_ci (p # ps) s = (case s of [] \<Rightarrow> [] | c # r \<Rightarrow> if ci p c then rx_lit_ci ps r else [])"

definition re_match :: "'a rx \<Rightarrow> pystr \<Rightarrow> 'a option" where
  "re_match m s = (case m s of [] \<Rightarrow> None | (x, r) # _ \<Rightarrow> Some x)"

text \<open>\<open>re.sub('^...', '', s)\<close> for an anchored pattern: the matched prefix is removed.\<close>

definition re_sub_prefix :: "'a rx \<Rightarrow> pystr \<Rightarrow> pystr" where
  "re_sub_prefix m s = (case m s of [] \<Rightarrow> s | (x, r) # _ \<Rightarrow> r)"

text \<open>The class \<open>.\<close>: any character but the line feed.\<close>

definition dot :: "nat \<Rightarrow> bool" where
  "dot c \<longleftrightarrow> c \<noteq> 10"

section \<open>exercise\_mapper.py\<close>

datatype py_error = ValueError | KeyError | OSError | OverflowError

definition bind_err :: "'e + 'a \<Rightarrow> ('a \<Rightarrow> 'e + 'b) \<Rightarrow> 'e + 'b" where
  "bind_err m f = (case m of Inl e \<Rightarrow> Inl e | Inr x \<Rightarrow> f x)"

record entry =
  garmin_name :: pystr
  garmin_category :: pystr
  muscles :: "pystr list"

text \<open>
  \<open>exercise_map\<close> is a \<open>dict\<close>; a Python \<open>dict\<close> keeps its keys in insertion order, and the
  order is what \<open>process.extractBests\<close> sees, so the dictionary is an association list.
\<close>

type_synonym catalog = "(pystr \<times> entry) list"

text \<open>\<open>d[k] = v\<close>: an existing key keeps its place, a new key goes last.\<close>

fun dict_set :: "pystr \<Rightarrow> entry \<Rightarrow> catalog \<Rightarrow> catalog" where
  "dict_set k v [] = [(k, v)]"
| "dict_set k v ((k', v') # d) = (if k' = k then (k, v) # d else (k', v') # dict_set k v d)"

definition normalize_name :: "libs \<Rightarrow> pystr \<Rightarrow> pystr" where
  "normalize_name L name =
     (let name = strip (str_lower L name);
          name = sub_runs isspace (py '' '') name;
          name = filter (\<lambda>c. is_word L c \<or> isspace c \<or> c = 45) name
      in name)"

definition mapper_to_garmin_format :: "libs \<Rightarrow> pystr \<Rightarrow> pystr" where
  "mapper_to_garmin_format L name =
     (let formatted = filter (\<lambda>c. is_word L c \<or> isspace c \<or> c = 45) name;
          formatted = sub_runs (\<lambda>c. isspace c \<or> c = 45) (py ''_'') formatted
      in str_upper L formatted)"

text \<open>\<open>int(round(x))\<close> for a float \<open>x\<close>: the nearest integer, a half going to the even one.\<close>

definition py_round :: "real \<Rightarrow> int" where
  "py_round x =
     (let f = \<lfloor>x\<rfloor>; d = x - of_int f
      in if d < 1 / 2 then f else if 1 / 2 < d then f + 1 else if even f then f else f + 1)"

text \<open>
  \<open>process.extractBests(query, choices, scorer, limit)\<close> of \<open>thefuzz\<close>, which hands the work
  to \<open>rapidfuzz\<close>: every choice is scored against the query with the unrounded scorer, the
  choices are ordered by that score, the higher first and, for equal scores, in the order in
  which they were given (here the order of the keys of the dictionary), the \<open>limit\<close> first are
  kept, and only then is each score rounded to an integer.
\<close>

definition extractBests :: "libs \<Rightarrow> pystr \<Rightarrow> pystr list \<Rightarrow> nat \<Rightarrow> (pystr \<times> int) list" where
  "extractBests L query choices limit =
     map (\<lambda>(c, s). (c, py_round s))
       (take limit
         (sort_key (\<lambda>m. - snd m) (map (\<lambda>c. (c, token_sort_ratio L query c)) choices)))"

definition unknown_exercise :: "libs \<Rightarrow> pystr \<Rightarrow> entry" where
  "unknown_exercise L name =
     \<lparr> garmin_name = mapper_to_garmin_format L name, garmin_category = py ''UNKNOWN'',
       muscles = [] \<rparr>"

text \<open>\<open>d[k]\<close> raises \<open>KeyError\<close> for a key that is not in the dictionary.\<close>

definition dict_get :: "catalog \<Rightarrow> pystr \<Rightarrow> py_error + entry" where
  "dict_get d k = (case map_of d k of None \<Rightarrow> Inl KeyError | Some v \<Rightarrow> Inr v)"

definition map_exercise :: "libs \<Rightarrow> catalog \<Rightarrow> pystr \<Rightarrow> py_error + entry \<times> int" where
  "map_exercise L exercise_map name =
     (let normalized = normalize_name L name in
      if normalized \<in> set (map fst exercise_map) then
        bind_err (dict_get exercise_map normalized) (\<lambda>e. Inr (e, 100))
      else
        (case (if exercise_map \<noteq> []
               then extractBests L normalized (map fst exercise_map) 3 else []) of
           (best_match, confidence) # _ \<Rightarrow>
             if 70 \<le> confidence
             then bind_err (dict_get exercise_map best_match) (\<lambda>e. Inr (e, confidence))
             else Inr (unknown_exercise L name, 0)
         | [] \<Rightarrow> Inr (unknown_exercise L name, 0)))"

text \<open>
  The file behind the mapper: absent, not JSON, or a JSON object with or without the member
  \<open>"exercises"\<close>. \<open>_load_map\<close> takes the member as it is.
\<close>

datatype file_state = FileNotFound | InvalidJSON | Document "catalog option"

record mapper =
  map_file :: file_state
  exercise_map :: catalog

definition load_map :: "file_state \<Rightarrow> catalog" where
  "load_map f =
     (case f of
        FileNotFound \<Rightarrow> []
      | InvalidJSON \<Rightarrow> []
      | Document None \<Rightarrow> []
      | Document (Some d) \<Rightarrow> d)"

definition init_mapper :: "file_state \<Rightarrow> mapper" where
  "init_mapper f = \<lparr> map_file = f, exercise_map = load_map f \<rparr>"

text \<open>
  \<open>add_mapping\<close> changes the dictionary and then writes the file. Whether the file can be
  written is the environment's choice \<open>writable\<close>; when it cannot, \<open>_save_map\<close> raises after
  the dictionary has been changed.
\<close>

record add_args =
  arg_name :: pystr
  arg_garmin_name :: pystr
  arg_category :: pystr
  arg_muscles :: "pystr list option"
  writable :: bool

definition save_map :: "bool \<Rightarrow> mapper \<Rightarrow> mapper \<times> py_error option" where
  "save_map w m =
     (if w then (m\<lparr> map_file := Document (Some (exercise_map m)) \<rparr>, None)
      else (m, Some OSError))"

definition add_mapping :: "libs \<Rightarrow> mapper \<Rightarrow> add_args \<Rightarrow> mapper \<times> py_error option" where
  "add_mapping L m a =
     (let normalized = normalize_name L (arg_name a);
          m = m\<lparr> exercise_map := dict_set normalized
                 \<lparr> garmin_name = arg_garmin_name a, garmin_category = arg_category a,
                   muscles = (case arg_muscles a of None \<Rightarrow> [] | Some ms \<Rightarrow> ms) \<rparr>
                 (exercise_map m) \<rparr>
      in save_map (writable a) m)"

text \<open>A mapper's life: loaded from the file, then any number of calls of \<open>add_mapping\<close>.\<close>

definition run_adds :: "libs \<Rightarrow> file_state \<Rightarrow> add_args list \<Rightarrow> mapper" where
  "run_adds L f ops = foldl (\<lambda>m a. fst (add_mapping L m a)) (init_mapper f) ops"

section \<open>workout\_parser.py\<close>

subsection \<open>The patterns\<close>

definition x_or_times :: "nat \<Rightarrow> bool" where
  "x_or_times c \<longleftrightarrow> ci 120 c \<or> c = 215"

definition hyphen_or_en_dash :: "nat \<Rightarrow> bool" where
  "hyphen_or_en_dash c \<longleftrightarrow> c = 45 \<or> c = 8211"

text \<open>\<open>(?:sec(?:onds?)?|s)\<close>\<close>

definition seconds_unit :: "unit rx" where
  "seconds_unit =
     rx_alt (rx_then (rx_lit_ci (py ''sec''))
               (rx_then (rx_opt (rx_then (rx_lit_ci (py ''ond'')) (rx_opt (rx_lit_ci (py ''s'')))))
                  (rx_return ())))
            (rx_lit_ci (py ''s''))"

text \<open>\<open>^(\d+)\s*[x\u00d7]\s*(\d+)[-\u2013]?(\d+)?\s+(.+)$\<close>, with the multiplication sign U+00D7
  and the en dash U+2013.\<close>

definition sets_reps_name :: "libs \<Rightarrow> (pystr \<times> pystr \<times> pystr option \<times> pystr) rx" where
  "sets_reps_name L =
     rx_bind (rx_greedy 1 (is_digit L)) (\<lambda>sets.
     rx_then (rx_greedy 0 isspace) (
     rx_then (rx_one x_or_times) (
     rx_then (rx_greedy 0 isspace) (
     rx_bind (rx_greedy 1 (is_digit L)) (\<lambda>reps_low.
     rx_then (rx_opt (rx_one hyphen_or_en_dash)) (
     rx_bind (rx_opt (rx_greedy 1 (is_digit L))) (\<lambda>reps_high.
     rx_then (rx_greedy 1 isspace) (
     rx_bind (rx_greedy 1 dot) (\<lambda>name.
     rx_then rx_eos (
     rx_return (sets, reps_low, reps_high, name)))))))))))"

text \<open>\<open>^(.+?)[-\u2013\s]+(\d+)\s*[x\u00d7]\s*(\d+)[-\u2013]?(\d+)?$\<close>\<close>

definition name_sets_reps :: "libs \<Rightarrow> (pystr \<times> pystr \<times> pystr \<times> pystr option) rx" where
  "name_sets_reps L =
     rx_bind (rx_lazy 1 dot) (\<lambda>name.
     rx_then (rx_greedy 1 (\<lambda>c. hyphen_or_en_dash c \<or> isspace c)) (
     rx_bind (rx_greedy 1 (is_digit L)) (\<lambda>sets.
     rx_then (rx_greedy 0 isspace) (
     rx_then (rx_one x_or_times) (
     rx_then (rx_greedy 0 isspace) (
     rx_bind (rx_greedy 1 (is_digit L)) (\<lambda>reps_low.
     rx_then (rx_opt (rx_one hyphen_or_en_dash)) (
     rx_bind (rx_opt (rx_greedy 1 (is_digit L))) (\<lambda>reps_high.
     rx_then rx_eos (
     rx_return (name, sets, reps_low, reps_high)))))))))))"

text \<open>\<open>^(.+?)[-\u2013\u2014:]+\s*(\d+)\s*sets?\s*[x\u00d7,]\s*(\d+)[-\u2013]?(\d+)?\s*reps?\<close>, with the
  em dash U+2014.\<close>

definition verbose :: "libs \<Rightarrow> (pystr \<times> pystr \<times> pystr \<times> pystr option) rx" where
  "verbose L =
     rx_bind (rx_lazy 1 dot) (\<lambda>name.
     rx_then (rx_greedy 1 (\<lambda>c. hyphen_or_en_dash c \<or> c = 8212 \<or> c = 58)) (
     rx_then (rx_greedy 0 isspace) (
     rx_bind (rx_greedy 1 (is_digit L)) (\<lambda>sets.
     rx_then (rx_greedy 0 isspace) (
     rx_then (rx_lit_ci (py ''set'')) (
     rx_then (rx_opt (rx_lit_ci (py ''s''))) (
     rx_then (rx_greedy 0 isspace) (
     rx_then (rx_one (\<lambda>c. x_or_times c \<or> c = 44)) (
     rx_then (rx_greedy 0 isspace) (
     rx_bind (rx_greedy 1 (is_digit L)) (\<lambda>reps_low.
     rx_then (rx_opt (rx_one hyphen_or_en_dash)) (
     rx_bind (rx_opt (rx_greedy 1 (is_digit L))) (\<lambda>reps_high.
     rx_then (rx_greedy 0 isspace) (
     rx_then (rx_lit_ci (py ''rep'')) (
     rx_then (rx_opt (rx_lit_ci (py ''s''))) (
     rx_return (name, sets, reps_low, reps_high)))))))))))))))))"

text \<open>\<open>^(\d+)\s*sets?\s*(?:of\s+)?(.+)$\<close>\<close>

definition sets_of_name :: "libs \<Rightarrow> (pystr \<times> pystr) rx" where
  "sets_of_name L =
     rx_bind (rx_greedy 1 (is_digit L)) (\<lambda>sets.
     rx_then (rx_greedy 0 isspace) (
     rx_then (rx_lit_ci (py ''set'')) (
     rx_then (rx_opt (rx_lit_ci (py ''s''))) (
     rx_then (rx_greedy 0 isspace) (
     rx_then (rx_opt (rx_then (rx_lit_ci (py ''of'')) (rx_greedy 1 isspace))) (
     rx_bind (rx_greedy 1 dot) (\<lambda>name.
     rx_then rx_eos (
     rx_return (sets, name)))))))))"

text \<open>\<open>^(.+?)[-\u2013\u2014:\s]+(\d+)\s*(?:sec(?:onds?)?|s)$\<close>\<close>

definition duration :: "libs \<Rightarrow> (pystr \<times> pystr) rx" where
  "duration L =
     rx_bind (rx_lazy 1 dot) (\<lambda>name.
     rx_then (rx_greedy 1 (\<lambda>c. hyphen_or_en_dash c \<or> c = 8212 \<or> c = 58 \<or> isspace c)) (
     rx_bind (rx_greedy 1 (is_digit L)) (\<lambda>duration.
     rx_then (rx_greedy 0 isspace) (
     rx_then seconds_unit (
     rx_then rx_eos (
     rx_return (name, duration)))))))"

text \<open>\<open>^(\d+)\s*[x\u00d7]\s*(\d+)\s*(?:sec(?:onds?)?|s)\s+(.+)$\<close>\<close>

definition sets_duration_name :: "libs \<Rightarrow> (pystr \<times> pystr \<times> pystr) rx" where
  "sets_duration_name L =
     rx_bind (rx_greedy 1 (is_digit L)) (\<lambda>sets.
     rx_then (rx_greedy 0 isspace) (
     rx_then (rx_one x_or_times) (
     rx_then (rx_greedy 0 isspace) (
     rx_bind (rx_greedy 1 (is_digit L)) (\<lambda>duration.
     rx_then (rx_greedy 0 isspace) (
     rx_then seconds_unit (
     rx_then (rx_greedy 1 isspace) (
     rx_bind (rx_greedy 1 dot) (\<lambda>name.
     rx_then rx_eos (
     rx_return (sets, duration, name)))))))))))"

text \<open>The patterns of the lines that are no exercises: \<open>^warm[\s-]?up\<close>, \<open>^cool[\s-]?down\<close>,
  \<open>^stretch\<close>, \<open>^rest\<close>, \<open>^\d+\s*min\<close>, a line of em dashes, a line of hyphens.\<close>

definition skip_patterns :: "libs \<Rightarrow> unit rx list" where
  "skip_patterns L =
     [ rx_then (rx_lit_ci (py ''warm''))
         (rx_then (rx_opt (rx_one (\<lambda>c. isspace c \<or> c = 45))) (rx_lit_ci (py ''up''))),
       rx_then (rx_lit_ci (py ''cool''))
         (rx_then (rx_opt (rx_one (\<lambda>c. isspace c \<or> c = 45))) (rx_lit_ci (py ''down''))),
       rx_lit_ci (py ''stretch''),
       rx_lit_ci (py ''rest''),
       rx_then (rx_greedy 1 (is_digit L)) (rx_then (rx_greedy 0 isspace) (rx_lit_ci (py ''min''))),
       rx_then (rx_greedy 1 (\<lambda>c. c = 8212)) rx_eos,
       rx_then (rx_greedy 1 (\<lambda>c. c = 45)) rx_eos ]"

subsection \<open>One line\<close>

text \<open>
  \<open>int(s)\<close> on the text of a group matched by \<open>\d+\<close>: Python's integers are unbounded, and
  \<open>int\<close> reads every Unicode decimal digit, of which \<open>uni_decimal\<close> gives the value. A text
  of more digits than the limit of the interpreter raises \<open>ValueError\<close>, unless the limit is 0.
  On a text that is no digit string the model raises \<open>ValueError\<close> as well.
\<close>

definition within_int_limit :: "libs \<Rightarrow> pystr \<Rightarrow> bool" where
  "within_int_limit L s \<longleftrightarrow> int_max_str_digits L = 0 \<or> length s \<le> int_max_str_digits L"

definition py_int :: "libs \<Rightarrow> pystr \<Rightarrow> py_error + int" where
  "py_int L s =
     (if s \<noteq> [] \<and> list_all (is_digit L) s \<and> within_int_limit L s
      then Inr (int (foldl (\<lambda>a c. 10 * a + (case uni_decimal L c of Some v \<Rightarrow> v | None \<Rightarrow> 0)) 0 s))
      else Inl ValueError)"

datatype ex_kind = Reps | Duration

text \<open>
  The dictionary \<open>result\<close> that \<open>parse_exercise_line\<close> builds, and the same dictionary once the
  mapping (and, in \<open>parse_workout\<close>, the section) has been stored in it. A key that only some
  rules set is an optional field.
\<close>

record result =
  raw_name :: pystr
  sets :: int
  reps :: "int option"
  reps_high :: "int option"
  duration_seconds :: "int option"
  ex_type :: ex_kind

record exercise = result +
  ex_garmin_name :: pystr
  ex_garmin_category :: pystr
  ex_muscles :: "pystr list"
  mapping_confidence :: int
  ex_section :: "pystr option"

text \<open>The dictionary of the three rules with a number of repetitions.\<close>

definition reps_result ::
  "libs \<Rightarrow> pystr \<Rightarrow> pystr \<Rightarrow> pystr \<Rightarrow> pystr option \<Rightarrow> py_error + result option" where
  "reps_result L name sets_text reps_low reps_high_text =
     bind_err (py_int L sets_text) (\<lambda>s.
     bind_err (py_int L reps_low) (\<lambda>r.
     bind_err (case reps_high_text of
                 None \<Rightarrow> Inr None
               | Some h \<Rightarrow> if h = [] then Inr None
                          else bind_err (py_int L h) (\<lambda>v. Inr (Some v))) (\<lambda>rh.
     Inr (Some \<lparr> raw_name = strip name, sets = s, reps = Some r, reps_high = rh,
                 duration_seconds = None, ex_type = Reps \<rparr>))))"

definition duration_result ::
  "libs \<Rightarrow> pystr \<Rightarrow> pystr option \<Rightarrow> pystr \<Rightarrow> py_error + result option" where
  "duration_result L name sets_text duration_text =
     bind_err (case sets_text of None \<Rightarrow> Inr 1 | Some t \<Rightarrow> py_int L t) (\<lambda>s.
     bind_err (py_int L duration_text) (\<lambda>d.
     Inr (Some \<lparr> raw_name = strip name, sets = s, reps = None, reps_high = None,
                 duration_seconds = Some d, ex_type = Duration \<rparr>)))"

text \<open>The rules of \<open>parse_exercise_line\<close>, each tried only when all before it gave nothing.\<close>

definition try_patterns :: "libs \<Rightarrow> pystr \<Rightarrow> py_error + result option" where
  "try_patterns L line =
     (case re_match (sets_reps_name L) line of
        Some (sets_text, reps_low, reps_high_text, name) \<Rightarrow>
          reps_result L name sets_text reps_low reps_high_text
      | None \<Rightarrow>
     (case re_match (name_sets_reps L) line of
        Some (name, sets_text, reps_low, reps_high_text) \<Rightarrow>
          reps_result L name sets_text reps_low reps_high_text
      | None \<Rightarrow>
     (case re_match (verbose L) line of
        Some (name, sets_text, reps_low, reps_high_text) \<Rightarrow>
          reps_result L name sets_text reps_low reps_high_text
      | None \<Rightarrow>
     (case re_match (sets_duration_name L) line of
        Some (sets_text, duration_text, name) \<Rightarrow>
          duration_result L name (Some sets_text) duration_text
      | None \<Rightarrow>
     (case re_match (duration L) line of
        Some (name, duration_text) \<Rightarrow> duration_result L name None duration_text
      | None \<Rightarrow>
     (case re_match (sets_of_name L) line of
        Some (sets_text, name) \<Rightarrow>
          bind_err (py_int L sets_text) (\<lambda>s.
            Inr (Some \<lparr> raw_name = strip name, sets = s, reps = Some 10, reps_high = None,
                        duration_seconds = None, ex_type = Reps \<rparr>))
      | None \<Rightarrow>
          if 3 < length line \<and> \<not> endswith line (py '':'')
          then Inr (Some \<lparr> raw_name = line, sets = 3, reps = Some 10, reps_high = None,
                           duration_seconds = None, ex_type = Reps \<rparr>)
          else Inr None))))))"

definition skipped :: "libs \<Rightarrow> pystr \<Rightarrow> bool" where
  "skipped L line \<longleftrightarrow>
     line = [] \<or> startswith line (py ''#'') \<or> startswith line (py ''//'') \<or>
     list_ex (\<lambda>pattern. re_match pattern line \<noteq> None) (skip_patterns L)"

definition parse_exercise_line :: "libs \<Rightarrow> catalog \<Rightarrow> pystr \<Rightarrow> py_error + exercise option" where
  "parse_exercise_line L cat line0 =
     (let line = strip line0 in
      if skipped L line then Inr None
      else
        bind_err (try_patterns L line) (\<lambda>result.
          case result of
            None \<Rightarrow> Inr None
          | Some r \<Rightarrow>
              bind_err (map_exercise L cat (raw_name r)) (\<lambda>(mapped, confidence).
                Inr (Some (result.extend r
                  \<lparr> ex_garmin_name = garmin_name mapped,
                    ex_garmin_category = garmin_category mapped,
                    ex_muscles = muscles mapped,
                    mapping_confidence = confidence,
                    ex_section = None \<rparr>)))))"

subsection \<open>A whole workout\<close>

record workout =
  name :: pystr
  exercises :: "exercise list"
  exercise_count :: nat
  warnings :: "pystr list"

definition list_marker_prefixes :: "pystr list" where
  "list_marker_prefixes =
     [py ''- '', [8226, 32], py ''* '', py ''1.'', py ''2.'', py ''3.'', py ''4.'', py ''5.'']"

text \<open>\<open>re.sub(r'^[-\u2022*]\s*', '', line)\<close> and then \<open>re.sub(r'^\d+\.\s*', '', line)\<close>, with the
  bullet U+2022.\<close>

definition strip_list_marker :: "libs \<Rightarrow> pystr \<Rightarrow> pystr" where
  "strip_list_marker L line =
     (let line = re_sub_prefix
            (rx_then (rx_one (\<lambda>c. c = 45 \<or> c = 8226 \<or> c = 42)) (rx_greedy 0 isspace)) line;
          line = re_sub_prefix
            (rx_then (rx_greedy 1 (is_digit L))
               (rx_then (rx_one (\<lambda>c. c = 46)) (rx_greedy 0 isspace))) line
      in line)"

definition low_confidence_warning :: "exercise \<Rightarrow> pystr" where
  "low_confidence_warning e =
     py ''Low confidence mapping for '' @ [39] @ raw_name e @ [39] @ py '' -> '' @ [39] @
     ex_garmin_name e @ [39] @ py '' ('' @ str_of_int (mapping_confidence e) @ py ''%)''"

text \<open>
  The loop of \<open>parse_workout\<close> over the lines, with the variables it updates:
  \<open>current_section\<close>, \<open>exercises\<close> and \<open>warnings\<close>.
\<close>

fun parse_lines ::
  "libs \<Rightarrow> catalog \<Rightarrow> pystr list \<Rightarrow> pystr option \<Rightarrow> exercise list \<Rightarrow> pystr list
     \<Rightarrow> py_error + exercise list \<times> pystr list" where
  "parse_lines L cat [] current_section exs ws = Inr (exs, ws)"
| "parse_lines L cat (l # ls) current_section exs ws =
     (let line = strip l in
      if endswith line (py '':'') \<or> startswith line (py ''##'')
      then parse_lines L cat ls (Some (strip (lstrip_char 35 (rstrip_char 58 line)))) exs ws
      else
        let line = (if list_ex (startswith line) list_marker_prefixes
                    then strip_list_marker L line else line)
        in case parse_exercise_line L cat line of
             Inl err \<Rightarrow> Inl err
           | Inr None \<Rightarrow> parse_lines L cat ls current_section exs ws
           | Inr (Some e) \<Rightarrow>
               let e = e\<lparr> ex_section := current_section \<rparr>
               in parse_lines L cat ls current_section (exs @ [e])
                    (if mapping_confidence e < 70 then ws @ [low_confidence_warning e] else ws))"

definition parse_workout :: "libs \<Rightarrow> catalog \<Rightarrow> pystr \<Rightarrow> pystr \<Rightarrow> py_error + workout" where
  "parse_workout L cat text nm =
     bind_err (parse_lines L cat (split_lines (strip text)) None [] []) (\<lambda>(exs, ws).
       Inr \<lparr> name = nm, exercises = exs, exercise_count = length exs, warnings = ws \<rparr>)"

subsection \<open>The structure sent to Garmin\<close>













section \<open>Notions used in the statements\<close>

text \<open>A text that \<open>int\<close> reads when its length is within the limit: decimal digits, at least one; and such a text of at most \<open>n\<close> characters.\<close>

definition digit_text :: "libs \<Rightarrow> pystr \<Rightarrow> bool" where
  "digit_text L s \<longleftrightarrow> s \<noteq> [] \<and> list_all (is_digit L) s"

definition digits_upto :: "libs \<Rightarrow> nat \<Rightarrow> pystr \<Rightarrow> bool" where
  "digits_upto L n s \<longleftrightarrow> digit_text L s \<and> length s \<le> n"

text \<open>
  A pattern never gives back more than the subject it was given; and every way in which a
  pattern matches a subject of at most \<open>n\<close> characters gives groups with the property \<open>Q n\<close>.
\<close>

definition rx_shrinks :: "'a rx \<Rightarrow> bool" where
  "rx_shrinks m \<longleftrightarrow> (\<forall>s x r. (x, r) \<in> set (m s) \<longrightarrow> length r \<le> length s)"

definition rx_all :: "'a rx \<Rightarrow> (nat \<Rightarrow> 'a \<Rightarrow> bool) \<Rightarrow> bool" where
  "rx_all m Q \<longleftrightarrow>
     (\<forall>s x r n. (x, r) \<in> set (m s) \<longrightarrow> length s \<le> n \<longrightarrow> Q n x \<and> length r \<le> n)"

text \<open>
  One of the six patterns of \<open>parse_exercise_line\<close> matches the line; and the test of its
  fallback, \<open>len(line) > 3 and not line.endswith(':')\<close>.
\<close>

definition rule_matches :: "libs \<Rightarrow> pystr \<Rightarrow> bool" where
  "rule_matches L line \<longleftrightarrow>
     re_match (sets_reps_name L) line \<noteq> None \<or> re_match (name_sets_reps L) line \<noteq> None \<or>
     re_match (verbose L) line \<noteq> None \<or> re_match (sets_duration_name L) line \<noteq> None \<or>
     re_match (duration L) line \<noteq> None \<or> re_match (sets_of_name L) line \<noteq> None"

definition fallback_accepts :: "pystr \<Rightarrow> bool" where
  "fallback_accepts line \<longleftrightarrow> 3 < length line \<and> \<not> endswith line (py '':'')"

text \<open>The dictionary of the rule \<open>sets_of_name\<close> of \<open>parse_exercise_line\<close>.\<close>

definition sets_of_result :: "libs \<Rightarrow> pystr \<Rightarrow> pystr \<Rightarrow> py_error + result option" where
  "sets_of_result L sets_text nm =
     bind_err (py_int L sets_text) (\<lambda>s.
       Inr (Some \<lparr> raw_name = strip nm, sets = s, reps = Some 10, reps_high = None,
                   duration_seconds = None, ex_type = Reps \<rparr>))"




text \<open>
  The score of a key of the catalog against a name, as \<open>map_exercise\<close> has it computed and
  before \<open>extractBests\<close> rounds it.
\<close>

definition score :: "libs \<Rightarrow> pystr \<Rightarrow> pystr \<Rightarrow> real" where
  "score L nm k = token_sort_ratio L (normalize_name L nm) k"

text \<open>
  The lines \<open>Dead hang \u2014 30 sec\<close> and \<open>2\u00d730 sec Dead hang\<close> of the comments in
  \<open>workout_parser.py\<close>.
\<close>

definition dead_hang_30_sec :: pystr where
  "dead_hang_30_sec = py ''Dead hang '' @ [8212] @ py '' 30 sec''"

definition two_by_30_sec_dead_hang :: pystr where
  "two_by_30_sec_dead_hang = py ''2'' @ [215] @ py ''30 sec Dead hang''"

text \<open>What the code makes of the line \<open>2\u00d730 sec Dead hang\<close> with an empty catalog.\<close>

definition sec_dead_hang :: exercise where
  "sec_dead_hang =
     \<lparr> raw_name = py ''sec Dead hang'', sets = 2, reps = Some 30, reps_high = None,
       duration_seconds = None, ex_type = Reps, ex_garmin_name = py ''SEC_DEAD_HANG'',
       ex_garmin_category = py ''UNKNOWN'', ex_muscles = [], mapping_confidence = 0,
       ex_section = None \<rparr>"

text \<open>Entries, catalogs and calls of \<open>add_mapping\<close> for the examples.\<close>

definition pull_up_entry :: entry where
  "pull_up_entry = \<lparr> garmin_name = py ''PULL_UP'', garmin_category = py ''PULL_UP'', muscles = [] \<rparr>"

definition chin_up_entry :: entry where
  "chin_up_entry = \<lparr> garmin_name = py ''CHIN_UP'', garmin_category = py ''PULL_UP'', muscles = [] \<rparr>"

definition bench_press_entry :: entry where
  "bench_press_entry =
     \<lparr> garmin_name = py ''BARBELL_BENCH_PRESS'', garmin_category = py ''BENCH_PRESS'', muscles = [] \<rparr>"

definition tie_catalog :: catalog where
  "tie_catalog = [(py ''pull-ups'', pull_up_entry), (py ''pull ups'', chin_up_entry)]"

definition bench_catalog :: catalog where
  "bench_catalog = [(py ''bench press'', bench_press_entry)]"

definition near_tie_catalog :: catalog where
  "near_tie_catalog = [(py ''benchpres'', pull_up_entry), (py ''bench press'', bench_press_entry)]"

definition add_question_mark :: add_args where
  "add_question_mark = \<lparr> arg_name = py ''?'', arg_garmin_name = py ''PULL_UP'',
     arg_category = py ''PULL_UP'', arg_muscles = None, writable = True \<rparr>"

definition add_clean_and_jerk :: add_args where
  "add_clean_and_jerk = \<lparr> arg_name = py ''Clean & Jerk'', arg_garmin_name = py ''CLEAN_AND_JERK'',
     arg_category = py ''OLYMPIC_LIFT'', arg_muscles = None, writable = True \<rparr>"

section \<open>What the patterns capture\<close>

declare split_ws.simps [simp del]

lemma in_rx_bind:
  "(y, r') \<in> set (rx_bind m f s) \<longleftrightarrow> (\<exists>x r. (x, r) \<in> set (m s) \<and> (y, r') \<in> set (f x r))"
  by (auto simp: rx_bind_def)

lemma re_match_SomeD: "re_match m s = Some x \<Longrightarrow> \<exists>r. (x, r) \<in> set (m s)"
  by (auto simp: re_match_def split: list.splits)

lemma take_takeWhile_all: "i \<le> length (takeWhile P s) \<Longrightarrow> list_all P (take i s)"
proof (induction s arbitrary: i)
  case Nil
  then show ?case by simp
next
  case (Cons c s)
  then show ?case by (cases i) (auto split: if_splits)
qed

subsection \<open>A pattern consumes its subject\<close>

lemma rx_shrinks_return: "rx_shrinks (rx_return x)"
  by (simp add: rx_shrinks_def rx_return_def)

lemma rx_shrinks_bind:
  assumes "rx_shrinks m" and "\<And>x. rx_shrinks (f x)"
  shows "rx_shrinks (rx_bind m f)"
  unfolding rx_shrinks_def
proof (intro allI impI)
  fix s y r'
  assume "(y, r') \<in> set (rx_bind m f s)"
  then obtain x r where x: "(x, r) \<in> set (m s)" and y: "(y, r') \<in> set (f x r)"
    by (auto simp: in_rx_bind)
  from assms(1) x have "length r \<le> length s" by (auto simp: rx_shrinks_def)
  moreover from assms(2) [of x] y have "length r' \<le> length r" by (auto simp: rx_shrinks_def)
  ultimately show "length r' \<le> length s" by simp
qed

lemma rx_shrinks_then: "rx_shrinks m \<Longrightarrow> rx_shrinks k \<Longrightarrow> rx_shrinks (rx_then m k)"
  unfolding rx_then_def by (rule rx_shrinks_bind)

lemma rx_shrinks_one: "rx_shrinks (rx_one P)"
  by (auto simp: rx_shrinks_def rx_one_def split: list.splits if_splits)

lemma rx_shrinks_greedy: "rx_shrinks (rx_greedy n P)"
  by (auto simp: rx_shrinks_def rx_greedy_def)

lemma rx_shrinks_lazy: "rx_shrinks (rx_lazy n P)"
  by (auto simp: rx_shrinks_def rx_lazy_def)

lemma rx_shrinks_opt: "rx_shrinks m \<Longrightarrow> rx_shrinks (rx_opt m)"
  by (auto simp: rx_shrinks_def rx_opt_def)

lemma rx_shrinks_alt: "rx_shrinks m \<Longrightarrow> rx_shrinks k \<Longrightarrow> rx_shrinks (rx_alt m k)"
  by (auto simp: rx_shrinks_def rx_alt_def)

lemma rx_shrinks_eos: "rx_shrinks rx_eos"
  by (auto simp: rx_shrinks_def rx_eos_def split: if_splits)

lemma rx_lit_ci_rest: "(x, r) \<in> set (rx_lit_ci p s) \<Longrightarrow> length r \<le> length s"
proof (induction p arbitrary: s)
  case Nil
  then show ?case by simp
next
  case (Cons c p)
  show ?case
  proof (cases s)
    case Nil
    with Cons.prems show ?thesis by simp
  next
    case (Cons a t)
    with Cons.prems have "(x, r) \<in> set (rx_lit_ci p t)"
      by (simp split: if_splits)
    then have "length r \<le> length t" by (rule Cons.IH)
    with Cons show ?thesis by simp
  qed
qed

lemma rx_shrinks_lit_ci: "rx_shrinks (rx_lit_ci p)"
  using rx_lit_ci_rest by (auto simp: rx_shrinks_def)

lemmas rx_shrinks_intros = rx_shrinks_return rx_shrinks_then rx_shrinks_one rx_shrinks_greedy
  rx_shrinks_lazy rx_shrinks_opt rx_shrinks_alt rx_shrinks_eos rx_shrinks_lit_ci

lemma rx_shrinks_seconds_unit: "rx_shrinks seconds_unit"
  unfolding seconds_unit_def by (intro rx_shrinks_intros)

subsection \<open>The groups of digits\<close>

lemma rx_all_return: "(\<And>n. Q n x) \<Longrightarrow> rx_all (rx_return x) Q"
  by (simp add: rx_all_def rx_return_def)

lemma rx_all_bind:
  assumes "rx_all m P" and "\<And>x. rx_all (f x) (\<lambda>n y. P n x \<longrightarrow> Q n y)"
  shows "rx_all (rx_bind m f) Q"
  unfolding rx_all_def
proof (intro allI impI)
  fix s y r' n
  assume "(y, r') \<in> set (rx_bind m f s)" and n: "length s \<le> n"
  then obtain x r where x: "(x, r) \<in> set (m s)" and y: "(y, r') \<in> set (f x r)"
    by (auto simp: in_rx_bind)
  from assms(1) x n have p: "P n x" and r: "length r \<le> n"
    by (auto simp: rx_all_def)
  from assms(2) [of x] y r have "(P n x \<longrightarrow> Q n y) \<and> length r' \<le> n"
    unfolding rx_all_def by blast
  with p show "Q n y \<and> length r' \<le> n" by simp
qed

lemma rx_all_shrinks: "rx_shrinks m \<Longrightarrow> rx_all m (\<lambda>n x. True)"
  unfolding rx_all_def rx_shrinks_def by (meson le_trans)

lemma rx_all_bind_any:
  assumes "rx_shrinks m" and "\<And>x. rx_all (f x) Q"
  shows "rx_all (rx_bind m f) Q"
  by (rule rx_all_bind [OF rx_all_shrinks [OF assms(1)]]) (simp add: assms(2))

lemma rx_all_then: "rx_shrinks m \<Longrightarrow> rx_all k Q \<Longrightarrow> rx_all (rx_then m k) Q"
  unfolding rx_then_def by (rule rx_all_bind_any)

lemma rx_all_digits: "rx_all (rx_greedy 1 (is_digit L)) (digits_upto L)"
  unfolding rx_all_def
proof (intro allI impI)
  fix s x r n
  assume "(x, r) \<in> set (rx_greedy 1 (is_digit L) s)" and n: "length s \<le> n"
  then obtain i where i: "1 \<le> i" "i \<le> length (takeWhile (is_digit L) s)"
      "x = take i s" "r = drop i s"
    by (auto simp: rx_greedy_def)
  have "i \<le> length s"
    using i(2) length_takeWhile_le [of "is_digit L" s] by simp
  with i(1) i(3) have "x \<noteq> []" by auto
  moreover have "list_all (is_digit L) x"
    using i(2) i(3) by (simp add: take_takeWhile_all)
  moreover have "length x \<le> n" and "length r \<le> n"
    using n i(3,4) by simp_all
  ultimately show "digits_upto L n x \<and> length r \<le> n"
    by (simp add: digits_upto_def digit_text_def)
qed

lemma rx_all_opt_digits:
  "rx_all (rx_opt (rx_greedy 1 (is_digit L))) (\<lambda>n c. \<forall>h. c = Some h \<longrightarrow> digits_upto L n h)"
  using rx_all_digits [of L] unfolding rx_all_def rx_opt_def by auto

lemma rx_all_bind_digits:
  "(\<And>x. rx_all (f x) (\<lambda>n y. digits_upto L n x \<longrightarrow> Q n y)) \<Longrightarrow>
   rx_all (rx_bind (rx_greedy 1 (is_digit L)) f) Q"
  by (rule rx_all_bind [OF rx_all_digits])

lemma rx_all_bind_opt_digits:
  "(\<And>x. rx_all (f x) (\<lambda>n y. (\<forall>h. x = Some h \<longrightarrow> digits_upto L n h) \<longrightarrow> Q n y)) \<Longrightarrow>
   rx_all (rx_bind (rx_opt (rx_greedy 1 (is_digit L))) f) Q"
  by (rule rx_all_bind [OF rx_all_opt_digits])

lemma rx_all_matchD:
  assumes "rx_all m Q" and "re_match m s = Some x"
  shows "Q (length s) x"
proof -
  from assms(2) obtain r where "(x, r) \<in> set (m s)"
    using re_match_SomeD by fastforce
  with assms(1) show ?thesis
    unfolding rx_all_def by blast
qed

lemmas rx_all_intros = rx_all_bind_digits rx_all_bind_opt_digits rx_all_then rx_all_return
  rx_shrinks_intros rx_shrinks_seconds_unit

lemma sets_reps_name_groups:
  "rx_all (sets_reps_name L)
     (\<lambda>n (a, b, c, d). digits_upto L n a \<and> digits_upto L n b \<and>
        (\<forall>h. c = Some h \<longrightarrow> digits_upto L n h))"
  unfolding sets_reps_name_def
  by (intro rx_all_intros | rule rx_all_bind_any)+ simp

lemma name_sets_reps_groups:
  "rx_all (name_sets_reps L)
     (\<lambda>n (d, a, b, c). digits_upto L n a \<and> digits_upto L n b \<and>
        (\<forall>h. c = Some h \<longrightarrow> digits_upto L n h))"
  unfolding name_sets_reps_def
  by (intro rx_all_intros | rule rx_all_bind_any)+ simp

lemma verbose_groups:
  "rx_all (verbose L)
     (\<lambda>n (d, a, b, c). digits_upto L n a \<and> digits_upto L n b \<and>
        (\<forall>h. c = Some h \<longrightarrow> digits_upto L n h))"
  unfolding verbose_def
  by (intro rx_all_intros | rule rx_all_bind_any)+ simp

lemma sets_duration_name_groups:
  "rx_all (sets_duration_name L) (\<lambda>n (a, b, d). digits_upto L n a \<and> digits_upto L n b)"
  unfolding sets_duration_name_def
  by (intro rx_all_intros | rule rx_all_bind_any)+ simp

lemma duration_groups: "rx_all (duration L) (\<lambda>n (d, a). digits_upto L n a)"
  unfolding duration_def
  by (intro rx_all_intros | rule rx_all_bind_any)+ simp

lemma sets_of_name_groups: "rx_all (sets_of_name L) (\<lambda>n (a, d). digits_upto L n a)"
  unfolding sets_of_name_def
  by (intro rx_all_intros | rule rx_all_bind_any)+ simp

section \<open>One line\<close>

subsection \<open>Reading the groups of digits\<close>

text \<open>
  \<open>int\<close> reads a group of digits of a line whose length is within the limit of the
  interpreter; beyond the limit it raises \<open>ValueError\<close>.
\<close>

lemma within_int_limit_mono:
  "within_int_limit L s \<Longrightarrow> length t \<le> length s \<Longrightarrow> within_int_limit L t"
  by (auto simp: within_int_limit_def)

lemma py_int_readable:
  assumes "digits_upto L (length line) s" and "within_int_limit L line"
  shows "\<exists>k. py_int L s = Inr k"
proof -
  from assms have "within_int_limit L s"
    by (auto simp: digits_upto_def intro: within_int_limit_mono)
  with assms(1) show ?thesis
    by (simp add: py_int_def digits_upto_def digit_text_def)
qed

lemma reps_result_ok:
  assumes "within_int_limit L line" and "digits_upto L (length line) a"
    and "digits_upto L (length line) b" and "\<forall>h. c = Some h \<longrightarrow> digits_upto L (length line) h"
  shows "\<exists>r. reps_result L nm a b c = Inr (Some r)"
proof -
  from assms(1,2) obtain n where n: "py_int L a = Inr n" by (blast dest: py_int_readable)
  from assms(1,3) obtain m where m: "py_int L b = Inr m" by (blast dest: py_int_readable)
  show ?thesis
  proof (cases c)
    case None
    then show ?thesis by (simp add: reps_result_def bind_err_def n m)
  next
    case (Some h)
    with assms(4) have h: "digits_upto L (length line) h" by simp
    with assms(1) obtain k where k: "py_int L h = Inr k" by (blast dest: py_int_readable)
    from h have "h \<noteq> []" by (simp add: digits_upto_def digit_text_def)
    with Some k show ?thesis by (simp add: reps_result_def bind_err_def n m)
  qed
qed

lemma reps_result_not_None: "reps_result L nm a b c \<noteq> Inr None"
  by (auto simp: reps_result_def bind_err_def split: sum.splits option.splits if_splits)

lemma duration_result_ok:
  assumes "within_int_limit L line" and "\<forall>t. st = Some t \<longrightarrow> digits_upto L (length line) t"
    and "digits_upto L (length line) b"
  shows "\<exists>r. duration_result L nm st b = Inr (Some r)"
proof -
  from assms(1,3) obtain m where m: "py_int L b = Inr m" by (blast dest: py_int_readable)
  show ?thesis
  proof (cases st)
    case None
    then show ?thesis by (simp add: duration_result_def bind_err_def m)
  next
    case (Some t)
    with assms(1,2) obtain k where "py_int L t = Inr k" by (blast dest: py_int_readable)
    with Some show ?thesis by (simp add: duration_result_def bind_err_def m)
  qed
qed

lemma duration_result_Inr:
  assumes "duration_result L nm st b = Inr r"
  shows "\<exists>res. r = Some res \<and> ex_type res = Duration \<and> (st = None \<longrightarrow> sets res = 1)"
  using assms
  by (auto simp: duration_result_def bind_err_def split: sum.splits option.splits)

lemma sets_of_result_not_None: "sets_of_result L a nm \<noteq> Inr None"
  by (auto simp: sets_of_result_def bind_err_def split: sum.splits)

lemma rule_sets_reps_name:
  assumes "re_match (sets_reps_name L) line = Some x" and "within_int_limit L line"
  shows "\<exists>r. (case x of (s, lo, hi, n) \<Rightarrow> reps_result L n s lo hi) = Inr (Some r)"
proof -
  obtain s lo hi n where x: "x = (s, lo, hi, n)" by (cases x)
  from rx_all_matchD [OF sets_reps_name_groups assms(1)]
  have "digits_upto L (length line) s" "digits_upto L (length line) lo"
    "\<forall>h. hi = Some h \<longrightarrow> digits_upto L (length line) h"
    by (simp_all add: x)
  from reps_result_ok [OF assms(2) this] show ?thesis by (simp add: x)
qed

lemma rule_name_sets_reps:
  assumes "re_match (name_sets_reps L) line = Some x" and "within_int_limit L line"
  shows "\<exists>r. (case x of (n, s, lo, hi) \<Rightarrow> reps_result L n s lo hi) = Inr (Some r)"
proof -
  obtain s lo hi n where x: "x = (n, s, lo, hi)" by (cases x)
  from rx_all_matchD [OF name_sets_reps_groups assms(1)]
  have "digits_upto L (length line) s" "digits_upto L (length line) lo"
    "\<forall>h. hi = Some h \<longrightarrow> digits_upto L (length line) h"
    by (simp_all add: x)
  from reps_result_ok [OF assms(2) this] show ?thesis by (simp add: x)
qed

lemma rule_verbose:
  assumes "re_match (verbose L) line = Some x" and "within_int_limit L line"
  shows "\<exists>r. (case x of (n, s, lo, hi) \<Rightarrow> reps_result L n s lo hi) = Inr (Some r)"
proof -
  obtain s lo hi n where x: "x = (n, s, lo, hi)" by (cases x)
  from rx_all_matchD [OF verbose_groups assms(1)]
  have "digits_upto L (length line) s" "digits_upto L (length line) lo"
    "\<forall>h. hi = Some h \<longrightarrow> digits_upto L (length line) h"
    by (simp_all add: x)
  from reps_result_ok [OF assms(2) this] show ?thesis by (simp add: x)
qed

lemma rule_sets_duration_name:
  assumes "re_match (sets_duration_name L) line = Some x" and "within_int_limit L line"
  shows "\<exists>r. (case x of (s, du, n) \<Rightarrow> duration_result L n (Some s) du) = Inr (Some r)"
proof -
  obtain s du n where x: "x = (s, du, n)" by (cases x)
  from rx_all_matchD [OF sets_duration_name_groups assms(1)]
  have "\<forall>t. Some s = Some t \<longrightarrow> digits_upto L (length line) t" "digits_upto L (length line) du"
    by (simp_all add: x)
  from duration_result_ok [OF assms(2) this] show ?thesis by (simp add: x)
qed

lemma rule_duration:
  assumes "re_match (duration L) line = Some x" and "within_int_limit L line"
  shows "\<exists>r. (case x of (n, du) \<Rightarrow> duration_result L n None du) = Inr (Some r)"
proof -
  obtain du n where x: "x = (n, du)" by (cases x)
  from rx_all_matchD [OF duration_groups assms(1)]
  have "\<forall>t. None = Some t \<longrightarrow> digits_upto L (length line) t" "digits_upto L (length line) du"
    by (simp_all add: x)
  from duration_result_ok [OF assms(2) this] show ?thesis by (simp add: x)
qed

lemma rule_sets_of_name:
  assumes "re_match (sets_of_name L) line = Some x" and "within_int_limit L line"
  shows "\<exists>r. (case x of (s, n) \<Rightarrow> sets_of_result L s n) = Inr (Some r)"
proof -
  obtain s n where x: "x = (s, n)" by (cases x)
  from rx_all_matchD [OF sets_of_name_groups assms(1)]
  have "digits_upto L (length line) s" by (simp add: x)
  with assms(2) obtain k where "py_int L s = Inr k" by (blast dest: py_int_readable)
  then show ?thesis by (simp add: x sets_of_result_def bind_err_def)
qed

subsection \<open>The rules in their order\<close>

lemma try_patterns_alt:
  "try_patterns L line =
     (case re_match (sets_reps_name L) line of
        Some x \<Rightarrow> (case x of (s, lo, hi, n) \<Rightarrow> reps_result L n s lo hi)
      | None \<Rightarrow>
     (case re_match (name_sets_reps L) line of
        Some x \<Rightarrow> (case x of (n, s, lo, hi) \<Rightarrow> reps_result L n s lo hi)
      | None \<Rightarrow>
     (case re_match (verbose L) line of
        Some x \<Rightarrow> (case x of (n, s, lo, hi) \<Rightarrow> reps_result L n s lo hi)
      | None \<Rightarrow>
     (case re_match (sets_duration_name L) line of
        Some x \<Rightarrow> (case x of (s, du, n) \<Rightarrow> duration_result L n (Some s) du)
      | None \<Rightarrow>
     (case re_match (duration L) line of
        Some x \<Rightarrow> (case x of (n, du) \<Rightarrow> duration_result L n None du)
      | None \<Rightarrow>
     (case re_match (sets_of_name L) line of
        Some x \<Rightarrow> (case x of (s, n) \<Rightarrow> sets_of_result L s n)
      | None \<Rightarrow>
          if fallback_accepts line
          then Inr (Some \<lparr> raw_name = line, sets = 3, reps = Some 10, reps_high = None,
                           duration_seconds = None, ex_type = Reps \<rparr>)
          else Inr None))))))"
  by (simp add: try_patterns_def sets_of_result_def fallback_accepts_def
      split: option.split prod.split)

lemma try_patterns_cases:
  assumes "\<And>x. re_match (sets_reps_name L) line = Some x \<Longrightarrow>
      try_patterns L line = (case x of (s, lo, hi, n) \<Rightarrow> reps_result L n s lo hi) \<Longrightarrow> P"
    and "\<And>x. re_match (name_sets_reps L) line = Some x \<Longrightarrow>
      try_patterns L line = (case x of (n, s, lo, hi) \<Rightarrow> reps_result L n s lo hi) \<Longrightarrow> P"
    and "\<And>x. re_match (verbose L) line = Some x \<Longrightarrow>
      try_patterns L line = (case x of (n, s, lo, hi) \<Rightarrow> reps_result L n s lo hi) \<Longrightarrow> P"
    and "\<And>x. re_match (sets_duration_name L) line = Some x \<Longrightarrow>
      try_patterns L line = (case x of (s, du, n) \<Rightarrow> duration_result L n (Some s) du) \<Longrightarrow> P"
    and "\<And>x. re_match (duration L) line = Some x \<Longrightarrow>
      try_patterns L line = (case x of (n, du) \<Rightarrow> duration_result L n None du) \<Longrightarrow> P"
    and "\<And>x. re_match (sets_of_name L) line = Some x \<Longrightarrow>
      try_patterns L line = (case x of (s, n) \<Rightarrow> sets_of_result L s n) \<Longrightarrow> P"
    and "\<not> rule_matches L line \<Longrightarrow>
      try_patterns L line =
        (if fallback_accepts line
         then Inr (Some \<lparr> raw_name = line, sets = 3, reps = Some 10, reps_high = None,
                          duration_seconds = None, ex_type = Reps \<rparr>)
         else Inr None) \<Longrightarrow> P"
  shows P
proof (cases "re_match (sets_reps_name L) line")
  case (Some x)
  then show ?thesis using assms(1) [of x] by (simp add: try_patterns_alt)
next
  case n1: None
  show ?thesis
  proof (cases "re_match (name_sets_reps L) line")
    case (Some x)
    then show ?thesis using assms(2) [of x] by (simp add: try_patterns_alt n1)
  next
    case n2: None
    show ?thesis
    proof (cases "re_match (verbose L) line")
      case (Some x)
      then show ?thesis using assms(3) [of x] by (simp add: try_patterns_alt n1 n2)
    next
      case n3: None
      show ?thesis
      proof (cases "re_match (sets_duration_name L) line")
        case (Some x)
        then show ?thesis using assms(4) [of x] by (simp add: try_patterns_alt n1 n2 n3)
      next
        case n4: None
        show ?thesis
        proof (cases "re_match (duration L) line")
          case (Some x)
          then show ?thesis using assms(5) [of x] by (simp add: try_patterns_alt n1 n2 n3 n4)
        next
          case n5: None
          show ?thesis
          proof (cases "re_match (sets_of_name L) line")
            case (Some x)
            then show ?thesis
              using assms(6) [of x] by (simp add: try_patterns_alt n1 n2 n3 n4 n5)
          next
            case n6: None
            have "\<not> rule_matches L line"
              by (simp add: rule_matches_def n1 n2 n3 n4 n5 n6)
            then show ?thesis
              using assms(7) by (simp add: try_patterns_alt n1 n2 n3 n4 n5 n6)
          qed
        qed
      qed
    qed
  qed
qed

lemma try_patterns_matched:
  assumes "rule_matches L line" and "within_int_limit L line"
  shows "\<exists>r. try_patterns L line = Inr (Some r)"
proof (rule try_patterns_cases [of L line])
  fix x assume "re_match (sets_reps_name L) line = Some x"
    and "try_patterns L line = (case x of (s, lo, hi, n) \<Rightarrow> reps_result L n s lo hi)"
  then show ?thesis using rule_sets_reps_name [OF _ assms(2)] by simp
next
  fix x assume "re_match (name_sets_reps L) line = Some x"
    and "try_patterns L line = (case x of (n, s, lo, hi) \<Rightarrow> reps_result L n s lo hi)"
  then show ?thesis using rule_name_sets_reps [OF _ assms(2)] by simp
next
  fix x assume "re_match (verbose L) line = Some x"
    and "try_patterns L line = (case x of (n, s, lo, hi) \<Rightarrow> reps_result L n s lo hi)"
  then show ?thesis using rule_verbose [OF _ assms(2)] by simp
next
  fix x assume "re_match (sets_duration_name L) line = Some x"
    and "try_patterns L line = (case x of (s, du, n) \<Rightarrow> duration_result L n (Some s) du)"
  then show ?thesis using rule_sets_duration_name [OF _ assms(2)] by simp
next
  fix x assume "re_match (duration L) line = Some x"
    and "try_patterns L line = (case x of (n, du) \<Rightarrow> duration_result L n None du)"
  then show ?thesis using rule_duration [OF _ assms(2)] by simp
next
  fix x assume "re_match (sets_of_name L) line = Some x"
    and "try_patterns L line = (case x of (s, n) \<Rightarrow> sets_of_result L s n)"
  then show ?thesis using rule_sets_of_name [OF _ assms(2)] by simp
next
  assume "\<not> rule_matches L line"
  with assms(1) show ?thesis by simp
qed

lemma duration_result_not_None: "duration_result L nm st b \<noteq> Inr None"
  using duration_result_Inr [of L nm st b None] by auto

lemma try_patterns_matched_not_None:
  assumes "rule_matches L line"
  shows "try_patterns L line \<noteq> Inr None"
proof (rule try_patterns_cases [of L line])
  fix x assume "try_patterns L line = (case x of (s, lo, hi, n) \<Rightarrow> reps_result L n s lo hi)"
  then show ?thesis using reps_result_not_None by (cases x) simp
next
  fix x assume "try_patterns L line = (case x of (n, s, lo, hi) \<Rightarrow> reps_result L n s lo hi)"
  then show ?thesis using reps_result_not_None by (cases x) simp
next
  fix x assume "try_patterns L line = (case x of (n, s, lo, hi) \<Rightarrow> reps_result L n s lo hi)"
  then show ?thesis using reps_result_not_None by (cases x) simp
next
  fix x assume "try_patterns L line = (case x of (s, du, n) \<Rightarrow> duration_result L n (Some s) du)"
  then show ?thesis using duration_result_not_None by (cases x) simp
next
  fix x assume "try_patterns L line = (case x of (n, du) \<Rightarrow> duration_result L n None du)"
  then show ?thesis using duration_result_not_None by (cases x) simp
next
  fix x assume "try_patterns L line = (case x of (s, n) \<Rightarrow> sets_of_result L s n)"
  then show ?thesis using sets_of_result_not_None by (cases x) simp
next
  assume "\<not> rule_matches L line"
  with assms show ?thesis by simp
qed

lemma try_patterns_unmatched:
  assumes "\<not> rule_matches L line"
  shows "try_patterns L line =
    (if fallback_accepts line
     then Inr (Some \<lparr> raw_name = line, sets = 3, reps = Some 10, reps_high = None,
                      duration_seconds = None, ex_type = Reps \<rparr>)
     else Inr None)"
proof (rule try_patterns_cases [of L line])
  fix x assume "re_match (sets_reps_name L) line = Some x"
  with assms show ?thesis by (simp add: rule_matches_def)
next
  fix x assume "re_match (name_sets_reps L) line = Some x"
  with assms show ?thesis by (simp add: rule_matches_def)
next
  fix x assume "re_match (verbose L) line = Some x"
  with assms show ?thesis by (simp add: rule_matches_def)
next
  fix x assume "re_match (sets_duration_name L) line = Some x"
  with assms show ?thesis by (simp add: rule_matches_def)
next
  fix x assume "re_match (duration L) line = Some x"
  with assms show ?thesis by (simp add: rule_matches_def)
next
  fix x assume "re_match (sets_of_name L) line = Some x"
  with assms show ?thesis by (simp add: rule_matches_def)
next
  assume "try_patterns L line =
    (if fallback_accepts line
     then Inr (Some \<lparr> raw_name = line, sets = 3, reps = Some 10, reps_high = None,
                      duration_seconds = None, ex_type = Reps \<rparr>)
     else Inr None)"
  then show ?thesis .
qed

lemma try_patterns_total:
  assumes "within_int_limit L line"
  shows "\<exists>r. try_patterns L line = Inr r"
proof (cases "rule_matches L line")
  case True
  with assms show ?thesis using try_patterns_matched by blast
next
  case False
  then show ?thesis by (simp add: try_patterns_unmatched)
qed

lemma try_patterns_duration:
  assumes "re_match (sets_reps_name L) line = None" "re_match (name_sets_reps L) line = None"
    "re_match (verbose L) line = None" "re_match (sets_duration_name L) line = None"
    "re_match (duration L) line = Some (n, du)"
  shows "try_patterns L line = duration_result L n None du"
  unfolding try_patterns_alt by (simp add: assms)

subsection \<open>The catalog lookup never raises\<close>

lemma dict_get_key: "k \<in> set (map fst d) \<Longrightarrow> \<exists>e. dict_get d k = Inr e"
proof -
  assume "k \<in> set (map fst d)"
  then have "map_of d k \<noteq> None" by (simp add: map_of_eq_None_iff)
  then show ?thesis by (auto simp: dict_get_def)
qed

lemma extractBests_score:
  assumes "(k, c) \<in> set (extractBests L q ks n)"
  shows "k \<in> set ks \<and> c = py_round (token_sort_ratio L q k)"
proof -
  let ?scored = "sort_key (\<lambda>m. - snd m) (map (\<lambda>c. (c, token_sort_ratio L q c)) ks)"
  from assms obtain m where m: "m \<in> set (take n ?scored)"
      and kc: "(k, c) = (case m of (c, s) \<Rightarrow> (c, py_round s))"
    unfolding extractBests_def by auto
  from m have "m \<in> set ?scored" by (rule in_set_takeD)
  then have "fst m \<in> set ks" and "snd m = token_sort_ratio L q (fst m)" by auto
  with kc show ?thesis by (cases m) simp
qed

lemma map_exercise_total: "\<exists>e c. map_exercise L cat nm = Inr (e, c)"
proof (cases "normalize_name L nm \<in> set (map fst cat)")
  case True
  with dict_get_key obtain e where "dict_get cat (normalize_name L nm) = Inr e" by blast
  with True show ?thesis by (simp add: map_exercise_def bind_err_def)
next
  case False
  show ?thesis
  proof (cases "if cat \<noteq> [] then extractBests L (normalize_name L nm) (map fst cat) 3 else []")
    case Nil
    with False show ?thesis by (simp add: map_exercise_def)
  next
    case (Cons m ms)
    obtain k c where m: "m = (k, c)" by (cases m)
    from Cons m have "(k, c) \<in> set (extractBests L (normalize_name L nm) (map fst cat) 3)"
      by (auto split: if_splits)
    then have "k \<in> set (map fst cat)" using extractBests_score by blast
    with dict_get_key obtain e where "dict_get cat k = Inr e" by blast
    with False Cons m show ?thesis by (simp add: map_exercise_def bind_err_def)
  qed
qed

subsection \<open>Which lines give an exercise\<close>

lemma parse_exercise_line_skipped:
  "skipped L (strip line) \<Longrightarrow> parse_exercise_line L cat line = Inr None"
  by (simp add: parse_exercise_line_def)

lemma parse_exercise_line_Some:
  assumes "\<not> skipped L (strip line)" and "try_patterns L (strip line) = Inr (Some r)"
  shows "\<exists>e. parse_exercise_line L cat line = Inr (Some e) \<and> sets e = sets r \<and>
    ex_type e = ex_type r \<and> raw_name e = raw_name r"
proof -
  obtain en c where "map_exercise L cat (raw_name r) = Inr (en, c)"
    using map_exercise_total by blast
  with assms show ?thesis
    by (simp add: parse_exercise_line_def Let_def bind_err_def result.defs)
qed

lemma parse_exercise_line_None:
  assumes "\<not> skipped L (strip line)" and "try_patterns L (strip line) = Inr None"
  shows "parse_exercise_line L cat line = Inr None"
  using assms by (simp add: parse_exercise_line_def Let_def bind_err_def)

lemma parse_exercise_line_Inl:
  assumes "\<not> skipped L (strip line)" and "try_patterns L (strip line) = Inl err"
  shows "parse_exercise_line L cat line = Inl err"
  using assms by (simp add: parse_exercise_line_def Let_def bind_err_def)

lemma parse_exercise_line_total:
  assumes "within_int_limit L (strip line)"
  shows "\<exists>r. parse_exercise_line L cat line = Inr r"
proof (cases "skipped L (strip line)")
  case True
  then show ?thesis by (simp add: parse_exercise_line_skipped)
next
  case False
  from try_patterns_total [OF assms] obtain r where r: "try_patterns L (strip line) = Inr r"
    by blast
  show ?thesis
  proof (cases r)
    case None
    with False r show ?thesis by (simp add: parse_exercise_line_None)
  next
    case (Some res)
    with False r show ?thesis using parse_exercise_line_Some by blast
  qed
qed

text \<open>
  C5, as amended. Take a line that the skip rule does not match. If one of the six patterns
  matches it, \<open>parse_exercise_line\<close> returns an exercise whenever the line is within the digit
  limit of \<open>int\<close>, and in no case returns nothing (beyond the limit \<open>int\<close> may raise
  \<open>ValueError\<close>). If no pattern matches it, the fallback decides: a stripped line of more than
  three characters that does not end with a colon gives an exercise, and every other line
  gives nothing.
\<close>

theorem parse_exercise_line_fallback:
  assumes "\<not> skipped L (strip line)"
  shows "(rule_matches L (strip line) \<and> within_int_limit L (strip line) \<longrightarrow>
            (\<exists>e. parse_exercise_line L cat line = Inr (Some e))) \<and>
         (rule_matches L (strip line) \<longrightarrow> parse_exercise_line L cat line \<noteq> Inr None) \<and>
         (\<not> rule_matches L (strip line) \<and> fallback_accepts (strip line) \<longrightarrow>
            (\<exists>e. parse_exercise_line L cat line = Inr (Some e))) \<and>
         (\<not> rule_matches L (strip line) \<and> \<not> fallback_accepts (strip line) \<longrightarrow>
            parse_exercise_line L cat line = Inr None)"
proof (intro conjI impI)
  assume "rule_matches L (strip line) \<and> within_int_limit L (strip line)"
  then obtain r where "try_patterns L (strip line) = Inr (Some r)"
    using try_patterns_matched by blast
  with assms show "\<exists>e. parse_exercise_line L cat line = Inr (Some e)"
    using parse_exercise_line_Some by blast
next
  assume m: "rule_matches L (strip line)"
  show "parse_exercise_line L cat line \<noteq> Inr None"
  proof (cases "try_patterns L (strip line)")
    case (Inl err)
    with assms show ?thesis by (simp add: parse_exercise_line_Inl)
  next
    case (Inr r)
    with try_patterns_matched_not_None [OF m] obtain res where "r = Some res"
      by (cases r) auto
    with Inr assms obtain e where "parse_exercise_line L cat line = Inr (Some e)"
      using parse_exercise_line_Some by blast
    then show ?thesis by simp
  qed
next
  assume "\<not> rule_matches L (strip line) \<and> fallback_accepts (strip line)"
  then have "\<exists>r. try_patterns L (strip line) = Inr (Some r)"
    by (simp add: try_patterns_unmatched)
  with assms show "\<exists>e. parse_exercise_line L cat line = Inr (Some e)"
    using parse_exercise_line_Some by blast
next
  assume "\<not> rule_matches L (strip line) \<and> \<not> fallback_accepts (strip line)"
  then have "try_patterns L (strip line) = Inr None"
    by (simp add: try_patterns_unmatched)
  with assms show "parse_exercise_line L cat line = Inr None"
    by (rule parse_exercise_line_None)
qed

text \<open>
  C10. Take a line that reaches the rule for a name followed by a duration: it is not skipped,
  the four rules tried before do not match, the pattern \<open>duration\<close> does. Whatever
  \<open>parse_exercise_line\<close> returns for it is an exercise with \<open>sets\<close> 1 and of the kind
  \<open>Duration\<close>; and it does return one when the line is within the digit limit of \<open>int\<close>
  (beyond it, \<open>int\<close> may raise \<open>ValueError\<close> on the seconds).
\<close>

theorem duration_rule_sets_one:
  assumes "\<not> skipped L (strip line)"
    and "re_match (sets_reps_name L) (strip line) = None"
    and "re_match (name_sets_reps L) (strip line) = None"
    and "re_match (verbose L) (strip line) = None"
    and "re_match (sets_duration_name L) (strip line) = None"
    and "re_match (duration L) (strip line) \<noteq> None"
  shows "(within_int_limit L (strip line) \<longrightarrow>
            (\<exists>e. parse_exercise_line L cat line = Inr (Some e))) \<and>
         (\<forall>r. parse_exercise_line L cat line = Inr r \<longrightarrow>
            (\<exists>e. r = Some e \<and> sets e = 1 \<and> ex_type e = Duration))"
proof -
  from assms(6) obtain n du where x: "re_match (duration L) (strip line) = Some (n, du)"
    by (cases "re_match (duration L) (strip line)") auto
  have t: "try_patterns L (strip line) = duration_result L n None du"
    by (rule try_patterns_duration [OF assms(2-5) x])
  have a: "within_int_limit L (strip line) \<longrightarrow> (\<exists>e. parse_exercise_line L cat line = Inr (Some e))"
  proof
    assume "within_int_limit L (strip line)"
    from rule_duration [OF x this] obtain r where "try_patterns L (strip line) = Inr (Some r)"
      by (auto simp: t)
    with assms(1) show "\<exists>e. parse_exercise_line L cat line = Inr (Some e)"
      using parse_exercise_line_Some by blast
  qed
  have b: "\<forall>r. parse_exercise_line L cat line = Inr r \<longrightarrow>
      (\<exists>e. r = Some e \<and> sets e = 1 \<and> ex_type e = Duration)"
  proof (intro allI impI)
    fix r
    assume p: "parse_exercise_line L cat line = Inr r"
    show "\<exists>e. r = Some e \<and> sets e = 1 \<and> ex_type e = Duration"
    proof (cases "duration_result L n None du")
      case (Inl err)
      with assms(1) t have "parse_exercise_line L cat line = Inl err"
        by (simp add: parse_exercise_line_Inl)
      with p show ?thesis by simp
    next
      case (Inr rr)
      from duration_result_Inr [OF Inr] obtain res where
        res: "rr = Some res" "ex_type res = Duration" "sets res = 1" by auto
      from parse_exercise_line_Some [OF assms(1), of res cat] t Inr res(1)
      obtain e where "parse_exercise_line L cat line = Inr (Some e)" "sets e = sets res"
        "ex_type e = ex_type res" by auto
      with p res show ?thesis by auto
    qed
  qed
  from a b show ?thesis by blast
qed

section \<open>A whole workout: the warnings\<close>

lemma length_strip_le: "length (strip s) \<le> length s"
proof -
  have "length (strip s) \<le> length (dropWhile isspace s)"
    using length_dropWhile_le [of isspace "rev (dropWhile isspace s)"]
    by (simp add: strip_def lstrip_def rstrip_def)
  also have "\<dots> \<le> length s" by (rule length_dropWhile_le)
  finally show ?thesis .
qed

lemma re_sub_prefix_le:
  assumes "rx_shrinks m"
  shows "length (re_sub_prefix m s) \<le> length s"
proof (cases "m s")
  case Nil
  then show ?thesis by (simp add: re_sub_prefix_def)
next
  case (Cons p ps)
  obtain x r where p: "p = (x, r)" by (cases p)
  with Cons have "(x, r) \<in> set (m s)" by simp
  with assms have "length r \<le> length s" by (auto simp: rx_shrinks_def)
  with Cons p show ?thesis by (simp add: re_sub_prefix_def)
qed

lemma strip_list_marker_le: "length (strip_list_marker L s) \<le> length s"
proof -
  let ?a = "rx_then (rx_one (\<lambda>c. c = 45 \<or> c = 8226 \<or> c = 42)) (rx_greedy 0 isspace)"
  let ?b = "rx_then (rx_greedy 1 (is_digit L))
               (rx_then (rx_one (\<lambda>c. c = 46)) (rx_greedy 0 isspace))"
  have a: "rx_shrinks ?a" by (intro rx_shrinks_intros)
  have b: "rx_shrinks ?b" by (intro rx_shrinks_intros)
  have "length (re_sub_prefix ?b (re_sub_prefix ?a s)) \<le> length (re_sub_prefix ?a s)"
    by (rule re_sub_prefix_le [OF b])
  also have "\<dots> \<le> length s" by (rule re_sub_prefix_le [OF a])
  finally show ?thesis by (simp add: strip_list_marker_def Let_def)
qed

lemma split_lines_le: "l \<in> set (split_lines s) \<Longrightarrow> length l \<le> length s"
proof (induction s arbitrary: l)
  case Nil
  then show ?case by simp
next
  case (Cons c s)
  show ?case
  proof (cases "c = 10")
    case True
    with Cons.prems have "l = [] \<or> l \<in> set (split_lines s)" by simp
    then show ?thesis using Cons.IH by fastforce
  next
    case False
    show ?thesis
    proof (cases "split_lines s")
      case Nil
      with False Cons.prems show ?thesis by simp
    next
      case (Cons h t)
      with False Cons.prems have "l = c # h \<or> l \<in> set t" by simp
      moreover have "length h \<le> length s" using Cons Cons.IH [of h] by simp
      moreover have "l \<in> set t \<Longrightarrow> length l \<le> length s" using Cons Cons.IH [of l] by simp
      ultimately show ?thesis by fastforce
    qed
  qed
qed

lemma parse_lines_shape:
  "parse_lines L cat ls sec exs ws = Inr (exs', ws') \<Longrightarrow>
   \<exists>new. exs' = exs @ new \<and>
     ws' = ws @ map low_confidence_warning (filter (\<lambda>e. mapping_confidence e < 70) new)"
proof (induction ls arbitrary: sec exs ws)
  case Nil
  then show ?case by simp
next
  case (Cons l ls)
  let ?line = "strip l"
  show ?case
  proof (cases "endswith ?line (py '':'') \<or> startswith ?line (py ''##'')")
    case True
    with Cons.prems have
      "parse_lines L cat ls (Some (strip (lstrip_char 35 (rstrip_char 58 ?line)))) exs ws
        = Inr (exs', ws')"
      by (simp add: Let_def)
    then show ?thesis by (rule Cons.IH)
  next
    case False
    let ?line' = "if list_ex (startswith ?line) list_marker_prefixes
      then strip_list_marker L ?line else ?line"
    show ?thesis
    proof (cases "parse_exercise_line L cat ?line'")
      case (Inl err)
      with False Cons.prems show ?thesis by (simp add: Let_def)
    next
      case (Inr r)
      show ?thesis
      proof (cases r)
        case None
        with False Inr Cons.prems have "parse_lines L cat ls sec exs ws = Inr (exs', ws')"
          by (simp add: Let_def)
        then show ?thesis by (rule Cons.IH)
      next
        case (Some e)
        let ?e = "e\<lparr> ex_section := sec \<rparr>"
        let ?ws = "if mapping_confidence ?e < 70 then ws @ [low_confidence_warning ?e] else ws"
        from False Inr Some Cons.prems
        have "parse_lines L cat ls sec (exs @ [?e]) ?ws = Inr (exs', ws')"
          by (simp add: Let_def)
        from Cons.IH [OF this] obtain new where
          "exs' = (exs @ [?e]) @ new"
          "ws' = ?ws @ map low_confidence_warning (filter (\<lambda>e. mapping_confidence e < 70) new)"
          by blast
        then show ?thesis
          by (intro exI [of _ "?e # new"]) simp
      qed
    qed
  qed
qed

lemma parse_lines_total:
  "\<forall>l\<in>set ls. within_int_limit L l \<Longrightarrow> \<exists>r. parse_lines L cat ls sec exs ws = Inr r"
proof (induction ls arbitrary: sec exs ws)
  case Nil
  show ?case by simp
next
  case (Cons l ls)
  let ?line = "strip l"
  from Cons.prems have rest: "\<forall>l\<in>set ls. within_int_limit L l" and l: "within_int_limit L l"
    by simp_all
  show ?case
  proof (cases "endswith ?line (py '':'') \<or> startswith ?line (py ''##'')")
    case True
    with Cons.IH [OF rest, of "Some (strip (lstrip_char 35 (rstrip_char 58 ?line)))" exs ws]
    show ?thesis by (simp add: Let_def)
  next
    case False
    let ?line' = "if list_ex (startswith ?line) list_marker_prefixes
      then strip_list_marker L ?line else ?line"
    have "length ?line' \<le> length ?line"
      using strip_list_marker_le [of L ?line] by simp
    then have "length (strip ?line') \<le> length l"
      using length_strip_le [of ?line'] length_strip_le [of l] by linarith
    with l have "within_int_limit L (strip ?line')"
      by (rule within_int_limit_mono)
    then obtain r where r: "parse_exercise_line L cat ?line' = Inr r"
      using parse_exercise_line_total by blast
    show ?thesis
    proof (cases r)
      case None
      with Cons.IH [OF rest, of sec exs ws] False r show ?thesis by (simp add: Let_def)
    next
      case (Some e)
      let ?e = "e\<lparr> ex_section := sec \<rparr>"
      let ?ws = "if mapping_confidence ?e < 70 then ws @ [low_confidence_warning ?e] else ws"
      have "parse_lines L cat (l # ls) sec exs ws = parse_lines L cat ls sec (exs @ [?e]) ?ws"
        using False r Some by (simp add: Let_def)
      with Cons.IH [OF rest, of sec "exs @ [?e]" ?ws] show ?thesis by simp
    qed
  qed
qed

text \<open>
  C6. Whatever workout \<open>parse_workout\<close> returns for a text, its warnings are exactly one
  warning for each of its exercises of confidence below 70 and no other, in the order of the
  exercises; the warning of an exercise is the text
  \<open>Low confidence mapping for 'R' -> 'G' (C%)\<close> with its raw name \<open>R\<close>, its Garmin name \<open>G\<close> and
  its confidence \<open>C\<close>. Hence there is a warning if and only if some exercise has a confidence
  below 70. A workout is returned for every text within the digit limit of \<open>int\<close> (beyond
  it, \<open>int\<close> may raise \<open>ValueError\<close> on a group of digits).
\<close>

theorem parse_workout_warnings:
  "(within_int_limit L text \<longrightarrow> (\<exists>w. parse_workout L cat text nm = Inr w)) \<and>
   (\<forall>w. parse_workout L cat text nm = Inr w \<longrightarrow>
      warnings w =
        map (\<lambda>e. py ''Low confidence mapping for '' @ [39] @ raw_name e @ [39] @ py '' -> '' @
                 [39] @ ex_garmin_name e @ [39] @ py '' ('' @
                 str_of_int (mapping_confidence e) @ py ''%)'')
            (filter (\<lambda>e. mapping_confidence e < 70) (exercises w)) \<and>
      (warnings w \<noteq> [] \<longleftrightarrow> (\<exists>e\<in>set (exercises w). mapping_confidence e < 70)))"
proof (intro conjI impI allI)
  assume t: "within_int_limit L text"
  have "\<forall>l\<in>set (split_lines (strip text)). within_int_limit L l"
  proof
    fix l assume "l \<in> set (split_lines (strip text))"
    then have "length l \<le> length (strip text)" by (rule split_lines_le)
    with length_strip_le [of "text"] have "length l \<le> length text" by simp
    with t show "within_int_limit L l" by (rule within_int_limit_mono)
  qed
  then obtain r where "parse_lines L cat (split_lines (strip text)) None [] [] = Inr r"
    using parse_lines_total by blast
  then show "\<exists>w. parse_workout L cat text nm = Inr w"
    by (cases r) (simp add: parse_workout_def bind_err_def)
next
  fix w
  assume w: "parse_workout L cat text nm = Inr w"
  then obtain exs ws where
    p: "parse_lines L cat (split_lines (strip text)) None [] [] = Inr (exs, ws)"
    and e: "exercises w = exs" and v: "warnings w = ws"
    by (auto simp: parse_workout_def bind_err_def split: sum.splits)
  from parse_lines_shape [OF p]
  have ws: "ws = map low_confidence_warning (filter (\<lambda>e. mapping_confidence e < 70) exs)"
    by simp
  have f: "low_confidence_warning =
    (\<lambda>e. py ''Low confidence mapping for '' @ [39] @ raw_name e @ [39] @ py '' -> '' @
                 [39] @ ex_garmin_name e @ [39] @ py '' ('' @
                 str_of_int (mapping_confidence e) @ py ''%)'')"
    by (rule ext) (simp add: low_confidence_warning_def)
  show "warnings w =
        map (\<lambda>e. py ''Low confidence mapping for '' @ [39] @ raw_name e @ [39] @ py '' -> '' @
                 [39] @ ex_garmin_name e @ [39] @ py '' ('' @
                 str_of_int (mapping_confidence e) @ py ''%)'')
            (filter (\<lambda>e. mapping_confidence e < 70) (exercises w))"
    unfolding e v ws f ..
  show "warnings w \<noteq> [] \<longleftrightarrow> (\<exists>e\<in>set (exercises w). mapping_confidence e < 70)"
    unfolding e v ws by (simp add: filter_empty_conv)
qed

section \<open>The structure sent to Garmin: repeat groups\<close>










section \<open>The lines of the comments, evaluated\<close>

lemmas str_eval = py_def strip_def lstrip_def rstrip_def isspace_def startswith_def endswith_def

lemmas rx_eval = rx_return_def rx_bind_def rx_then_def rx_one_def rx_greedy_def rx_lazy_def
  rx_opt_def rx_alt_def rx_eos_def ci_def re_match_def dot_def x_or_times_def
  hyphen_or_en_dash_def seconds_unit_def

lemmas ascii_eval = ascii_libs_def ascii_isalnum_def ascii_decimal_def ascii_lower_def
  ascii_upper_def is_word_def is_digit_def

lemma row_1: "re_match (sets_reps_name ascii_libs) (py ''Row'') = None"
  by (simp add: sets_reps_name_def str_eval rx_eval ascii_eval)

lemma row_2: "re_match (name_sets_reps ascii_libs) (py ''Row'') = None"
  by (simp add: name_sets_reps_def str_eval rx_eval ascii_eval)

lemma row_3: "re_match (verbose ascii_libs) (py ''Row'') = None"
  by (simp add: verbose_def str_eval rx_eval ascii_eval)

lemma row_4: "re_match (sets_duration_name ascii_libs) (py ''Row'') = None"
  by (simp add: sets_duration_name_def str_eval rx_eval ascii_eval)

lemma row_5: "re_match (duration ascii_libs) (py ''Row'') = None"
  by (simp add: duration_def str_eval rx_eval ascii_eval)

lemma row_6: "re_match (sets_of_name ascii_libs) (py ''Row'') = None"
  by (simp add: sets_of_name_def str_eval rx_eval ascii_eval)

lemma row_strip: "strip (py ''Row'') = py ''Row''"
  by (simp add: str_eval)

lemma row_skip: "\<not> skipped ascii_libs (py ''Row'')"
  by (simp add: skipped_def skip_patterns_def str_eval rx_eval ascii_eval)

lemma row_try: "try_patterns ascii_libs (py ''Row'') = Inr None"
  by (simp add: try_patterns_def row_1 row_2 row_3 row_4 row_5 row_6) (simp add: str_eval)

text \<open>
  C5 as stated fails: the line \<open>Row\<close> is not skipped, and \<open>parse_exercise_line\<close> returns
  \<open>None\<close> for it.
\<close>

theorem short_name_dropped:
  "\<not> skipped ascii_libs (strip (py ''Row'')) \<and> parse_exercise_line ascii_libs [] (py ''Row'') = Inr None"
  by (simp add: parse_exercise_line_def row_strip row_skip row_try bind_err_def)

lemma bp_1: "re_match (sets_reps_name ascii_libs) (py ''Bench Press'') = None"
  by (simp add: sets_reps_name_def str_eval rx_eval ascii_eval)

lemma bp_2: "re_match (name_sets_reps ascii_libs) (py ''Bench Press'') = None"
  by (simp add: name_sets_reps_def str_eval rx_eval ascii_eval)

lemma bp_3: "re_match (verbose ascii_libs) (py ''Bench Press'') = None"
  by (simp add: verbose_def str_eval rx_eval ascii_eval)

lemma bp_4: "re_match (sets_duration_name ascii_libs) (py ''Bench Press'') = None"
  by (simp add: sets_duration_name_def str_eval rx_eval ascii_eval)

lemma bp_5: "re_match (duration ascii_libs) (py ''Bench Press'') = None"
  by (simp add: duration_def str_eval rx_eval ascii_eval)

lemma bp_6: "re_match (sets_of_name ascii_libs) (py ''Bench Press'') = None"
  by (simp add: sets_of_name_def str_eval rx_eval ascii_eval)

lemma bp_strip: "strip (py ''Bench Press'') = py ''Bench Press''"
  by (simp add: str_eval)

lemma bp_skip: "\<not> skipped ascii_libs (py ''Bench Press'')"
  by (simp add: skipped_def skip_patterns_def str_eval rx_eval ascii_eval)

text \<open>C5 as amended, at the line \<open>Bench Press\<close>, which no pattern matches and the fallback takes.\<close>

theorem parse_exercise_line_fallback_witness:
  "\<not> skipped ascii_libs (strip (py ''Bench Press'')) \<and>
   \<not> rule_matches ascii_libs (strip (py ''Bench Press'')) \<and>
   fallback_accepts (strip (py ''Bench Press'')) \<and>
   (\<exists>e. parse_exercise_line ascii_libs [] (py ''Bench Press'') = Inr (Some e))"
proof -
  have a: "\<not> skipped ascii_libs (strip (py ''Bench Press''))"
    unfolding bp_strip by (rule bp_skip)
  have b: "\<not> rule_matches ascii_libs (strip (py ''Bench Press''))"
    unfolding bp_strip by (simp add: rule_matches_def bp_1 bp_2 bp_3 bp_4 bp_5 bp_6)
  have c: "fallback_accepts (strip (py ''Bench Press''))"
    unfolding bp_strip by (simp add: fallback_accepts_def str_eval)
  from parse_exercise_line_fallback [OF a, of "[]"] b c
  have "\<exists>e. parse_exercise_line ascii_libs [] (py ''Bench Press'') = Inr (Some e)"
    by simp
  with a b c show ?thesis by simp
qed

lemma dh_strip: "strip dead_hang_30_sec = dead_hang_30_sec"
  by (simp add: dead_hang_30_sec_def str_eval)

lemma dh_1: "re_match (sets_reps_name ascii_libs) dead_hang_30_sec = None"
  by (simp add: dead_hang_30_sec_def sets_reps_name_def str_eval rx_eval ascii_eval)

lemma dh_2: "re_match (name_sets_reps ascii_libs) dead_hang_30_sec = None"
  by (simp add: dead_hang_30_sec_def name_sets_reps_def str_eval rx_eval ascii_eval)

lemma dh_3: "re_match (verbose ascii_libs) dead_hang_30_sec = None"
  by (simp add: dead_hang_30_sec_def verbose_def str_eval rx_eval ascii_eval)

lemma dh_4: "re_match (sets_duration_name ascii_libs) dead_hang_30_sec = None"
  by (simp add: dead_hang_30_sec_def sets_duration_name_def str_eval rx_eval ascii_eval)

lemma dh_5: "re_match (duration ascii_libs) dead_hang_30_sec = Some (py ''Dead hang'', py ''30'')"
  by (simp add: dead_hang_30_sec_def duration_def str_eval rx_eval ascii_eval)

lemma dh_skip: "\<not> skipped ascii_libs dead_hang_30_sec"
  by (simp add: dead_hang_30_sec_def skipped_def skip_patterns_def str_eval rx_eval ascii_eval)

lemma dh_limit: "within_int_limit ascii_libs dead_hang_30_sec"
  by (simp add: within_int_limit_def dead_hang_30_sec_def ascii_libs_def py_def)

text \<open>C10 at the line \<open>Dead hang \u2014 30 sec\<close>.\<close>

theorem duration_rule_sets_one_witness:
  "within_int_limit ascii_libs (strip dead_hang_30_sec) \<and>
   (\<exists>e. parse_exercise_line ascii_libs [] dead_hang_30_sec = Inr (Some e) \<and> sets e = 1 \<and>
      ex_type e = Duration)"
proof -
  have a: "\<not> skipped ascii_libs (strip dead_hang_30_sec)"
    unfolding dh_strip by (rule dh_skip)
  have b: "re_match (duration ascii_libs) (strip dead_hang_30_sec) \<noteq> None"
    unfolding dh_strip by (simp add: dh_5)
  have l: "within_int_limit ascii_libs (strip dead_hang_30_sec)"
    unfolding dh_strip by (rule dh_limit)
  have h1: "re_match (sets_reps_name ascii_libs) (strip dead_hang_30_sec) = None"
    unfolding dh_strip by (rule dh_1)
  have h2: "re_match (name_sets_reps ascii_libs) (strip dead_hang_30_sec) = None"
    unfolding dh_strip by (rule dh_2)
  have h3: "re_match (verbose ascii_libs) (strip dead_hang_30_sec) = None"
    unfolding dh_strip by (rule dh_3)
  have h4: "re_match (sets_duration_name ascii_libs) (strip dead_hang_30_sec) = None"
    unfolding dh_strip by (rule dh_4)
  note t = duration_rule_sets_one [of ascii_libs dead_hang_30_sec "[]", OF a h1 h2 h3 h4 b]
  from conjunct1 [OF t] l obtain e where
    e: "parse_exercise_line ascii_libs [] dead_hang_30_sec = Inr (Some e)" by auto
  from conjunct2 [OF t, THEN spec, THEN mp, OF e] have "sets e = 1 \<and> ex_type e = Duration"
    by auto
  with e l show ?thesis by auto
qed

subsection \<open>A workout of one line\<close>

lemma tb_strip: "strip two_by_30_sec_dead_hang = two_by_30_sec_dead_hang"
  by (simp add: two_by_30_sec_dead_hang_def str_eval)

lemma tb_1: "re_match (sets_reps_name ascii_libs) two_by_30_sec_dead_hang =
    Some (py ''2'', py ''30'', None, py ''sec Dead hang'')"
  by (simp add: two_by_30_sec_dead_hang_def sets_reps_name_def str_eval rx_eval ascii_eval)

lemma tb_5: "re_match (sets_duration_name ascii_libs) two_by_30_sec_dead_hang =
    Some (py ''2'', py ''30'', py ''Dead hang'')"
  by (simp add: two_by_30_sec_dead_hang_def sets_duration_name_def str_eval rx_eval ascii_eval)

lemma tb_skip: "\<not> skipped ascii_libs two_by_30_sec_dead_hang"
  by (simp add: two_by_30_sec_dead_hang_def skipped_def skip_patterns_def str_eval rx_eval ascii_eval)

lemma tb_limit: "within_int_limit ascii_libs two_by_30_sec_dead_hang"
  by (simp add: within_int_limit_def two_by_30_sec_dead_hang_def ascii_libs_def py_def)

lemma py_int_2: "py_int ascii_libs (py ''2'') = Inr 2"
  by (simp add: py_int_def within_int_limit_def str_eval ascii_eval)

lemma py_int_30: "py_int ascii_libs (py ''30'') = Inr 30"
  by (simp add: py_int_def within_int_limit_def str_eval ascii_eval)

lemma tb_try:
  "try_patterns ascii_libs two_by_30_sec_dead_hang =
     Inr (Some \<lparr> raw_name = py ''sec Dead hang'', sets = 2, reps = Some 30, reps_high = None,
       duration_seconds = None, ex_type = Reps \<rparr>)"
proof -
  have "strip (py ''sec Dead hang'') = py ''sec Dead hang''"
    by (simp add: str_eval)
  then show ?thesis
    by (simp add: try_patterns_def tb_1 reps_result_def py_int_2 py_int_30 bind_err_def)
qed

lemma tb_map:
  "map_exercise ascii_libs [] (py ''sec Dead hang'') =
     Inr (\<lparr> garmin_name = py ''SEC_DEAD_HANG'', garmin_category = py ''UNKNOWN'', muscles = [] \<rparr>, 0)"
proof -
  have "mapper_to_garmin_format ascii_libs (py ''sec Dead hang'') = py ''SEC_DEAD_HANG''"
    by (simp add: mapper_to_garmin_format_def str_eval ascii_eval)
  then show ?thesis
    by (simp add: map_exercise_def unknown_exercise_def)
qed

lemma tb_line: "parse_exercise_line ascii_libs [] two_by_30_sec_dead_hang = Inr (Some sec_dead_hang)"
  by (simp add: parse_exercise_line_def tb_strip tb_skip tb_try tb_map bind_err_def
      sec_dead_hang_def result.defs)

lemma tb_lines:
  "parse_lines ascii_libs [] [two_by_30_sec_dead_hang] None [] [] =
     Inr ([sec_dead_hang], [low_confidence_warning sec_dead_hang])"
proof -
  have a: "\<not> endswith two_by_30_sec_dead_hang (py '':'')"
    by (simp add: two_by_30_sec_dead_hang_def str_eval)
  have b: "\<not> startswith two_by_30_sec_dead_hang (py ''##'')"
    by (simp add: two_by_30_sec_dead_hang_def str_eval)
  have c: "\<not> list_ex (startswith two_by_30_sec_dead_hang) list_marker_prefixes"
    by (simp add: two_by_30_sec_dead_hang_def list_marker_prefixes_def str_eval)
  have d: "sec_dead_hang\<lparr> ex_section := None \<rparr> = sec_dead_hang"
    by (simp add: sec_dead_hang_def)
  have e: "mapping_confidence sec_dead_hang < 70"
    by (simp add: sec_dead_hang_def)
  show ?thesis
    by (simp add: tb_strip a b c tb_line d e)
qed

lemma tb_warning:
  "low_confidence_warning sec_dead_hang =
     py ''Low confidence mapping for '' @ [39] @ py ''sec Dead hang'' @ [39] @ py '' -> '' @ [39] @
     py ''SEC_DEAD_HANG'' @ [39] @ py '' (0%)''"
  by (simp add: low_confidence_warning_def sec_dead_hang_def str_of_int_def py_def)

lemma tb_workout:
  "parse_workout ascii_libs [] two_by_30_sec_dead_hang (py ''Workout'') =
     Inr \<lparr> name = py ''Workout'', exercises = [sec_dead_hang], exercise_count = 1,
           warnings = [low_confidence_warning sec_dead_hang] \<rparr>"
proof -
  have "split_lines (strip two_by_30_sec_dead_hang) = [two_by_30_sec_dead_hang]"
    unfolding tb_strip by (simp add: two_by_30_sec_dead_hang_def py_def)
  then have "parse_lines ascii_libs [] (split_lines (strip two_by_30_sec_dead_hang)) None [] [] =
     Inr ([sec_dead_hang], [low_confidence_warning sec_dead_hang])"
    by (simp only: tb_lines)
  then show ?thesis
    by (simp add: parse_workout_def bind_err_def del: parse_lines.simps)
qed

text \<open>
  C1. With an empty catalog the text \<open>2\u00d730 sec Dead hang\<close> gives one exercise and one warning,
  but the exercise is counted in repetitions: the pattern \<open>sets_reps_name\<close> is tried first and
  matches with 2 sets, 30 repetitions and the name \<open>sec Dead hang\<close>, so the Garmin name is
  \<open>SEC_DEAD_HANG\<close> and there is no duration. The pattern \<open>sets_duration_name\<close>, whose comment
  in the source is this very line, would give 2, 30 and \<open>Dead hang\<close>, and is never tried.
\<close>

theorem two_by_30_sec_parsed_as_reps:
  "parse_workout ascii_libs [] two_by_30_sec_dead_hang (py ''Workout'') =
     Inr \<lparr> name = py ''Workout'', exercises = [sec_dead_hang], exercise_count = 1,
           warnings = [py ''Low confidence mapping for '' @ [39] @ py ''sec Dead hang'' @ [39] @
             py '' -> '' @ [39] @ py ''SEC_DEAD_HANG'' @ [39] @ py '' (0%)''] \<rparr> \<and>
   ex_type sec_dead_hang = Reps \<and> reps sec_dead_hang = Some 30 \<and>
   duration_seconds sec_dead_hang = None \<and>
   re_match (sets_duration_name ascii_libs) two_by_30_sec_dead_hang =
     Some (py ''2'', py ''30'', py ''Dead hang'')"
  using tb_workout unfolding tb_warning by (simp add: tb_5) (simp add: sec_dead_hang_def)

text \<open>
  C6 at the text \<open>2\u00d730 sec Dead hang\<close> and an empty catalog: one exercise, of confidence 0,
  and the one warning that names it.
\<close>

theorem parse_workout_warnings_witness:
  "within_int_limit ascii_libs two_by_30_sec_dead_hang \<and>
   (\<exists>w. parse_workout ascii_libs [] two_by_30_sec_dead_hang (py ''Workout'') = Inr w \<and>
      map raw_name (exercises w) = [py ''sec Dead hang''] \<and>
      map mapping_confidence (exercises w) = [0] \<and>
      warnings w = [py ''Low confidence mapping for '' @ [39] @ py ''sec Dead hang'' @ [39] @
             py '' -> '' @ [39] @ py ''SEC_DEAD_HANG'' @ [39] @ py '' (0%)''])"
proof -
  note t = parse_workout_warnings [of ascii_libs two_by_30_sec_dead_hang "[]" "py ''Workout''"]
  from conjunct1 [OF t] tb_limit obtain w where
    w: "parse_workout ascii_libs [] two_by_30_sec_dead_hang (py ''Workout'') = Inr w" by auto
  with tb_workout have e: "exercises w = [sec_dead_hang]" by auto
  from conjunct2 [OF t, THEN spec, THEN mp, OF w]
  have "warnings w =
        map (\<lambda>e. py ''Low confidence mapping for '' @ [39] @ raw_name e @ [39] @ py '' -> '' @
                 [39] @ ex_garmin_name e @ [39] @ py '' ('' @
                 str_of_int (mapping_confidence e) @ py ''%)'')
            (filter (\<lambda>e. mapping_confidence e < 70) (exercises w))"
    by (rule conjunct1)
  then have "warnings w = [py ''Low confidence mapping for '' @ [39] @ py ''sec Dead hang'' @ [39] @
             py '' -> '' @ [39] @ py ''SEC_DEAD_HANG'' @ [39] @ py '' (0%)'']"
    unfolding e by (simp add: sec_dead_hang_def str_of_int_def py_def)
  with w e tb_limit show ?thesis
    by (intro conjI exI [of _ w]) (simp_all add: sec_dead_hang_def)
qed

section \<open>The catalog and the fuzzy match\<close>

text \<open>A stable sort puts first the first of the elements with the least key.\<close>

lemma insort_key_least:
  fixes g :: "'a \<Rightarrow> real"
  assumes "\<forall>x\<in>set zs. g y \<le> g x"
  shows "insort_key g y zs = y # zs"
  using assms by (cases zs) simp_all

lemma insort_key_after:
  fixes g :: "'a \<Rightarrow> real"
  assumes "g y < g x"
  shows "insort_key g x (y # zs) = y # insort_key g x zs"
proof -
  from assms have "\<not> g x \<le> g y" by simp
  then show ?thesis by simp
qed

lemma sort_key_first_least:
  fixes g :: "'a \<Rightarrow> real"
  assumes "\<forall>x\<in>set pre. g y < g x" and "\<forall>x\<in>set post. g y \<le> g x"
  shows "\<exists>rest. sort_key g (pre @ y # post) = y # rest"
  using assms(1)
proof (induction pre)
  case Nil
  have "\<forall>x\<in>set (sort_key g post). g y \<le> g x"
    using assms(2) by simp
  then have "insort_key g y (sort_key g post) = y # sort_key g post"
    by (rule insort_key_least)
  then show ?case by simp
next
  case (Cons x pre)
  then obtain rest where rest: "sort_key g (pre @ y # post) = y # rest"
    by auto
  from Cons.prems have "g y < g x" by simp
  then have "insort_key g x (y # rest) = y # insort_key g x rest"
    by (rule insort_key_after)
  with rest show ?case by simp
qed

lemma extractBests_first:
  assumes "\<forall>k'\<in>set pre. token_sort_ratio L q k' < token_sort_ratio L q k"
    and "\<forall>k'\<in>set post. token_sort_ratio L q k' \<le> token_sort_ratio L q k"
  shows "\<exists>rest. extractBests L q (pre @ k # post) 3 = (k, py_round (token_sort_ratio L q k)) # rest"
proof -
  let ?f = "\<lambda>c. (c, token_sort_ratio L q c)"
  let ?g = "\<lambda>m :: pystr \<times> real. - snd m"
  have a: "\<forall>x\<in>set (map ?f pre). ?g (?f k) < ?g x"
    using assms(1) by simp
  have b: "\<forall>x\<in>set (map ?f post). ?g (?f k) \<le> ?g x"
    using assms(2) by simp
  from sort_key_first_least [of "map ?f pre" ?g "?f k" "map ?f post", OF a b]
  obtain rest where "sort_key ?g (map ?f pre @ ?f k # map ?f post) = ?f k # rest"
    by blast
  then have "extractBests L q (pre @ k # post) 3 =
      (k, py_round (token_sort_ratio L q k)) #
        map (\<lambda>(c, s). (c, py_round s)) (take (Suc (Suc 0)) rest)"
    by (simp add: extractBests_def numeral_3_eq_3)
  then show ?thesis by blast
qed

text \<open>
  C8, as amended. When the name is no key of the catalog and the best score, rounded, is at
  least 70, \<open>map_exercise\<close> returns, among the keys of the best score before rounding, the
  entry of the one that comes first in the order of the dictionary, with that score rounded:
  every key before it scores less, no key after it scores more.
\<close>

theorem fuzzy_tie_first_in_catalog:
  assumes "normalize_name L nm \<notin> set (map fst cat)"
    and "map fst cat = pre @ k # post"
    and "\<forall>k'\<in>set pre. score L nm k' < score L nm k"
    and "\<forall>k'\<in>set post. score L nm k' \<le> score L nm k"
    and "70 \<le> py_round (score L nm k)"
  shows "\<exists>e. map_of cat k = Some e \<and> map_exercise L cat nm = Inr (e, py_round (score L nm k))"
proof -
  let ?q = "normalize_name L nm"
  from assms(3,4) obtain rest where
    best: "extractBests L ?q (map fst cat) 3 = (k, py_round (token_sort_ratio L ?q k)) # rest"
    unfolding score_def assms(2) using extractBests_first by blast
  from assms(2) have "k \<in> set (map fst cat)" by simp
  then have "map_of cat k \<noteq> None" by (simp add: map_of_eq_None_iff)
  then obtain e where e: "map_of cat k = Some e" by blast
  from assms(2) have ne: "cat \<noteq> []" by auto
  have "map_exercise L cat nm = Inr (e, py_round (score L nm k))"
    using assms(1,5) ne best e
    by (simp add: map_exercise_def score_def bind_err_def dict_get_def)
  with e show ?thesis by blast
qed

lemmas score_eval = ascii_token_sort_ratio_def full_process_def indel_ratio_def lcs_length_def
  sort_tokens_def split_ws.simps Let_def

lemma ascii_scorer: "token_sort_ratio ascii_libs = ascii_token_sort_ratio"
  by (simp add: ascii_libs_def)

lemma normalize_pullups: "normalize_name ascii_libs (py ''Pullups'') = py ''pullups''"
  by (simp add: normalize_name_def str_eval ascii_eval)

lemma ratio_pullups_1: "ascii_token_sort_ratio (py ''pullups'') (py ''pull-ups'') = 280 / 3"
  by (simp add: score_eval str_eval ascii_eval)

lemma ratio_pullups_2: "ascii_token_sort_ratio (py ''pullups'') (py ''pull ups'') = 280 / 3"
  by (simp add: score_eval str_eval ascii_eval)

lemma round_280_3: "py_round (280 / 3) = 93"
  by (simp add: py_round_def Let_def)

lemma score_pullups:
  "score ascii_libs (py ''Pullups'') (py ''pull-ups'') = 280 / 3"
  "score ascii_libs (py ''Pullups'') (py ''pull ups'') = 280 / 3"
  by (simp_all add: score_def normalize_pullups ratio_pullups_1 ratio_pullups_2 ascii_scorer)

lemma tie_keys: "map fst tie_catalog = [py ''pull-ups'', py ''pull ups'']"
  by (simp add: tie_catalog_def)

lemma pullups_not_key: "py ''pullups'' \<notin> set (map fst tie_catalog)"
  by (simp add: tie_keys py_def)

lemma tie_best:
  "extractBests ascii_libs (py ''pullups'') [py ''pull-ups'', py ''pull ups''] 3
     = [(py ''pull-ups'', 93), (py ''pull ups'', 93)]"
  by (simp add: extractBests_def ascii_scorer ratio_pullups_1 ratio_pullups_2 round_280_3)

lemma tie_lookup:
  "dict_get tie_catalog (py ''pull-ups'') = Inr pull_up_entry"
  "map_of tie_catalog (py ''pull ups'') = Some chin_up_entry"
  by (simp_all add: dict_get_def tie_catalog_def py_def)

lemma tie_result: "map_exercise ascii_libs tie_catalog (py ''Pullups'') = Inr (pull_up_entry, 93)"
proof -
  have "tie_catalog \<noteq> []" by (simp add: tie_catalog_def)
  then show ?thesis
    using pullups_not_key
    by (simp add: map_exercise_def normalize_pullups tie_keys tie_best tie_lookup bind_err_def)
qed

text \<open>
  C8 as stated fails. The keys \<open>pull-ups\<close> and \<open>pull ups\<close> have the same score, 280/3 (rounded,
  93), against the name \<open>Pullups\<close>, which is no key; \<open>pull ups\<close> sorts before \<open>pull-ups\<close>, yet
  the entry returned is that of \<open>pull-ups\<close>, the first key of the dictionary.
\<close>

theorem tie_not_lexicographic:
  "map_exercise ascii_libs tie_catalog (py ''Pullups'') = Inr (pull_up_entry, 93) \<and>
   score ascii_libs (py ''Pullups'') (py ''pull-ups'') = 280 / 3 \<and>
   score ascii_libs (py ''Pullups'') (py ''pull ups'') = 280 / 3 \<and>
   py ''pull ups'' < py ''pull-ups'' \<and>
   map_of tie_catalog (py ''pull ups'') = Some chin_up_entry \<and>
   chin_up_entry \<noteq> pull_up_entry"
proof -
  have "py ''pull ups'' < py ''pull-ups''" by (simp add: py_def)
  moreover have "chin_up_entry \<noteq> pull_up_entry"
    by (simp add: chin_up_entry_def pull_up_entry_def py_def)
  ultimately show ?thesis
    using tie_result score_pullups tie_lookup(2) by simp
qed

text \<open>C8 as amended, at the same catalog and name.\<close>

theorem fuzzy_tie_first_in_catalog_witness:
  "map_of tie_catalog (py ''pull-ups'') = Some pull_up_entry \<and>
   map_exercise ascii_libs tie_catalog (py ''Pullups'') = Inr (pull_up_entry, 93)"
proof -
  have a: "normalize_name ascii_libs (py ''Pullups'') \<notin> set (map fst tie_catalog)"
    using pullups_not_key by (simp add: normalize_pullups)
  have b: "map fst tie_catalog = [] @ py ''pull-ups'' # [py ''pull ups'']"
    by (simp add: tie_keys)
  have c: "\<forall>k'\<in>set []. score ascii_libs (py ''Pullups'') k' < score ascii_libs (py ''Pullups'') (py ''pull-ups'')"
    by simp
  have d: "\<forall>k'\<in>set [py ''pull ups'']. score ascii_libs (py ''Pullups'') k'
      \<le> score ascii_libs (py ''Pullups'') (py ''pull-ups'')"
    by (simp add: score_pullups)
  have e: "70 \<le> py_round (score ascii_libs (py ''Pullups'') (py ''pull-ups''))"
    by (simp add: score_pullups round_280_3)
  have f: "map_of tie_catalog (py ''pull-ups'') = Some pull_up_entry"
    by (simp add: tie_catalog_def py_def)
  from fuzzy_tie_first_in_catalog [OF a b c d e] show ?thesis
    by (simp add: f score_pullups round_280_3)
qed

text \<open>
  Keys that tie only after rounding are ranked by the score before rounding: against
  \<open>Bench Pres\<close> the key \<open>benchpres\<close> scores 1800/19 and the key \<open>bench press\<close> 2000/21, both
  95 when rounded, and the second is returned although it comes later in the dictionary.
\<close>

lemma normalize_bench_pres: "normalize_name ascii_libs (py ''Bench Pres'') = py ''bench pres''"
  by (simp add: normalize_name_def str_eval ascii_eval)

lemma ratio_bench_pres_1: "ascii_token_sort_ratio (py ''bench pres'') (py ''benchpres'') = 1800 / 19"
  by (simp add: score_eval str_eval ascii_eval)

lemma ratio_bench_pres_2: "ascii_token_sort_ratio (py ''bench pres'') (py ''bench press'') = 2000 / 21"
  by (simp add: score_eval str_eval ascii_eval)

lemma rounded_tie_ranked_by_score:
  "py_round (score ascii_libs (py ''Bench Pres'') (py ''benchpres'')) = 95 \<and>
   py_round (score ascii_libs (py ''Bench Pres'') (py ''bench press'')) = 95 \<and>
   map_exercise ascii_libs near_tie_catalog (py ''Bench Pres'') = Inr (bench_press_entry, 95)"
proof -
  have r1: "py_round (1800 / 19) = 95" by (simp add: py_round_def Let_def)
  have r2: "py_round (2000 / 21) = 95" by (simp add: py_round_def Let_def)
  have k: "map fst near_tie_catalog = [py ''benchpres'', py ''bench press'']"
    by (simp add: near_tie_catalog_def)
  have n: "py ''bench pres'' \<notin> set (map fst near_tie_catalog)"
    by (simp add: k py_def)
  have b: "extractBests ascii_libs (py ''bench pres'') [py ''benchpres'', py ''bench press''] 3
     = [(py ''bench press'', 95), (py ''benchpres'', 95)]"
    by (simp add: extractBests_def ascii_scorer ratio_bench_pres_1 ratio_bench_pres_2 r1 r2)
  have g: "dict_get near_tie_catalog (py ''bench press'') = Inr bench_press_entry"
    by (simp add: dict_get_def near_tie_catalog_def py_def)
  have "near_tie_catalog \<noteq> []" by (simp add: near_tie_catalog_def)
  then have "map_exercise ascii_libs near_tie_catalog (py ''Bench Pres'') = Inr (bench_press_entry, 95)"
    using n by (simp add: map_exercise_def normalize_bench_pres k b g bind_err_def)
  then show ?thesis
    by (simp add: score_def normalize_bench_pres ascii_scorer ratio_bench_pres_1
        ratio_bench_pres_2 r1 r2)
qed

section \<open>Normalised names\<close>

lemma normalize_clean_jerk_1: "normalize_name ascii_libs (py ''Clean & Jerk'') = py ''clean  jerk''"
  by (simp add: normalize_name_def str_eval ascii_eval)

lemma normalize_clean_jerk_2: "normalize_name ascii_libs (py ''clean  jerk'') = py ''clean jerk''"
  by (simp add: normalize_name_def str_eval ascii_eval)

text \<open>
  C3. \<open>_normalize_name\<close> is not idempotent: it collapses the runs of white space before it
  removes the special characters, so \<open>Clean & Jerk\<close> becomes \<open>clean  jerk\<close> with two spaces,
  and that becomes \<open>clean jerk\<close>.
\<close>

theorem normalize_twice_differs:
  "normalize_name ascii_libs (py ''Clean & Jerk'') = py ''clean  jerk'' \<and>
   normalize_name ascii_libs (normalize_name ascii_libs (py ''Clean & Jerk'')) = py ''clean jerk'' \<and>
   normalize_name ascii_libs (normalize_name ascii_libs (py ''Clean & Jerk''))
     \<noteq> normalize_name ascii_libs (py ''Clean & Jerk'')"
  by (simp add: normalize_clean_jerk_1 normalize_clean_jerk_2) (simp add: py_def)

text \<open>
  C4. With no file behind the mapper, the one call \<open>add_mapping("Clean & Jerk", ...)\<close> leaves a
  catalog whose only key is \<open>clean  jerk\<close>, with two spaces, and \<open>_normalize_name\<close> of that key is
  \<open>clean jerk\<close>: the key is not its own normal form.
\<close>

theorem added_key_not_normalized:
  "map fst (exercise_map (run_adds ascii_libs FileNotFound [add_clean_and_jerk]))
     = [py ''clean  jerk''] \<and>
   normalize_name ascii_libs (py ''clean  jerk'') = py ''clean jerk'' \<and>
   normalize_name ascii_libs (py ''clean  jerk'') \<noteq> py ''clean  jerk''"
proof -
  have "map fst (exercise_map (run_adds ascii_libs FileNotFound [add_clean_and_jerk]))
     = [py ''clean  jerk'']"
    by (simp add: run_adds_def init_mapper_def load_map_def add_mapping_def save_map_def
        add_clean_and_jerk_def normalize_clean_jerk_1)
  moreover have "py ''clean jerk'' \<noteq> py ''clean  jerk''" by (simp add: py_def)
  ultimately show ?thesis by (simp add: normalize_clean_jerk_2)
qed

section \<open>Exact and fuzzy matches\<close>

lemma normalize_press_bench: "normalize_name ascii_libs (py ''Press Bench'') = py ''press bench''"
  by (simp add: normalize_name_def str_eval ascii_eval)

lemma ratio_press_bench: "ascii_token_sort_ratio (py ''press bench'') (py ''bench press'') = 100"
  by (simp add: score_eval str_eval ascii_eval)

lemma round_100: "py_round 100 = 100"
  by (simp add: py_round_def Let_def)

text \<open>
  C2. A fuzzy match can have the confidence 100: \<open>Press Bench\<close> is normalised to
  \<open>press bench\<close>, which is no key of a catalog with the single key \<open>bench press\<close>, and the
  scorer, which sorts the words, gives 100.
\<close>

theorem fuzzy_match_confidence_100:
  "normalize_name ascii_libs (py ''Press Bench'') \<notin> set (map fst bench_catalog) \<and>
   map_exercise ascii_libs bench_catalog (py ''Press Bench'') = Inr (bench_press_entry, 100)"
proof -
  have a: "py ''press bench'' \<notin> set (map fst bench_catalog)"
    by (simp add: bench_catalog_def py_def)
  have b: "extractBests ascii_libs (py ''press bench'') (map fst bench_catalog) 3
      = [(py ''bench press'', 100)]"
    by (simp add: extractBests_def bench_catalog_def ascii_scorer ratio_press_bench round_100)
  have c: "dict_get bench_catalog (py ''bench press'') = Inr bench_press_entry"
    by (simp add: dict_get_def bench_catalog_def)
  have d: "bench_catalog \<noteq> []"
    by (simp add: bench_catalog_def)
  show ?thesis
    using a d by (simp add: map_exercise_def normalize_press_bench b c bind_err_def)
qed

section \<open>Blank names\<close>

lemma normalize_question_mark: "normalize_name ascii_libs (py ''?'') = []"
  by (simp add: normalize_name_def str_eval ascii_eval)

lemma normalize_space: "normalize_name ascii_libs (py '' '') = []"
  by (simp add: normalize_name_def str_eval ascii_eval)

text \<open>
  C9 as stated fails. After \<open>add_mapping("?", ...)\<close> the catalog has the empty key, and a blank
  name is an exact match of confidence 100.
\<close>

theorem blank_name_exact_match:
  "map_exercise ascii_libs (exercise_map (run_adds ascii_libs FileNotFound [add_question_mark]))
     (py '' '') = Inr (pull_up_entry, 100)"
proof -
  have "exercise_map (run_adds ascii_libs FileNotFound [add_question_mark]) = [([], pull_up_entry)]"
    by (simp add: run_adds_def init_mapper_def load_map_def add_mapping_def save_map_def
        add_question_mark_def normalize_question_mark pull_up_entry_def)
  then show ?thesis
    by (simp add: map_exercise_def normalize_space dict_get_def bind_err_def)
qed

lemma strip_blank:
  assumes "\<forall>c\<in>set s. isspace c"
  shows "strip s = []"
proof -
  have d: "dropWhile isspace s = []" using assms by simp
  show ?thesis unfolding strip_def lstrip_def rstrip_def d by simp
qed

lemma sub_runs_one_run:
  assumes "\<forall>c\<in>set s. p c" and "s \<noteq> []"
  shows "sub_runs p rep s = rep"
proof -
  from assms(2) obtain c cs where s: "s = c # cs" by (cases s) auto
  with assms(1) have c: "p c" and d: "dropWhile p cs = []" by simp_all
  show ?thesis by (simp add: s c d)
qed

lemma mapper_to_garmin_format_blank:
  assumes "\<forall>c\<in>set nm. isspace c"
    and "str_upper L [] = []" and "str_upper L (py ''_'') = py ''_''"
  shows "mapper_to_garmin_format L nm = (if nm = [] then [] else py ''_'')"
proof -
  have keep: "filter (\<lambda>c. is_word L c \<or> isspace c \<or> c = 45) nm = nm"
    using assms(1) by (simp add: filter_id_conv)
  show ?thesis
  proof (cases "nm = []")
    case True
    then show ?thesis by (simp add: mapper_to_garmin_format_def assms(2))
  next
    case False
    have "sub_runs (\<lambda>c. isspace c \<or> c = 45) (py ''_'') nm = py ''_''"
      using assms(1) False by (intro sub_runs_one_run) auto
    with False show ?thesis by (simp add: mapper_to_garmin_format_def keep assms(3))
  qed
qed

text \<open>
  C9, as amended. For a name of white space only (or empty), when the catalog has no empty
  key and the scorer gives, rounded, less than 70 for the empty string against every key,
  \<open>map_exercise\<close> returns without an exception the unknown exercise with confidence 0,
  category \<open>UNKNOWN\<close> and no muscles; its name is empty for the empty name and \<open>_\<close> otherwise.
  The hypotheses on \<open>str_lower\<close> and \<open>str_upper\<close> hold of Python: white space and the underscore
  have no case.
\<close>

theorem blank_name_unknown:
  assumes "\<forall>c\<in>set nm. isspace c"
    and "str_lower L nm = nm"
    and "str_upper L [] = []" and "str_upper L (py ''_'') = py ''_''"
    and "[] \<notin> set (map fst cat)"
    and "\<forall>k\<in>set (map fst cat). py_round (token_sort_ratio L [] k) < 70"
  shows "map_exercise L cat nm =
    Inr (\<lparr> garmin_name = (if nm = [] then [] else py ''_''), garmin_category = py ''UNKNOWN'',
           muscles = [] \<rparr>, 0)"
proof -
  have n: "normalize_name L nm = []"
    using strip_blank [OF assms(1)] by (simp add: normalize_name_def assms(2))
  have u: "unknown_exercise L nm =
      \<lparr> garmin_name = (if nm = [] then [] else py ''_''), garmin_category = py ''UNKNOWN'',
        muscles = [] \<rparr>"
    using mapper_to_garmin_format_blank [OF assms(1,3,4)] by (simp add: unknown_exercise_def)
  let ?best = "if cat \<noteq> [] then extractBests L [] (map fst cat) 3 else []"
  have "map_exercise L cat nm = Inr (unknown_exercise L nm, 0)"
  proof (cases ?best)
    case Nil
    then show ?thesis using assms(5) by (simp add: map_exercise_def n)
  next
    case (Cons m ms)
    obtain k c where m: "m = (k, c)" by (cases m)
    from Cons m have "(k, c) \<in> set (extractBests L [] (map fst cat) 3)"
      by (auto split: if_splits)
    then have "k \<in> set (map fst cat)" and "c = py_round (token_sort_ratio L [] k)"
      using extractBests_score by blast+
    with assms(6) have "c < 70" by blast
    with Cons m show ?thesis using assms(5) by (simp add: map_exercise_def n)
  qed
  with u show ?thesis by simp
qed

lemma ratio_blank_bench_press: "ascii_token_sort_ratio [] (py ''bench press'') = 0"
  by (simp add: score_eval str_eval ascii_eval)

text \<open>C9 as amended, at the name of two spaces and a catalog with the key \<open>bench press\<close>.\<close>

theorem blank_name_unknown_witness:
  "map_exercise ascii_libs bench_catalog (py ''  '') =
    Inr (\<lparr> garmin_name = py ''_'', garmin_category = py ''UNKNOWN'', muscles = [] \<rparr>, 0)"
proof -
  have a: "\<forall>c\<in>set (py ''  ''). isspace c" by (simp add: str_eval)
  have b: "str_lower ascii_libs (py ''  '') = py ''  ''" by (simp add: str_eval ascii_eval)
  have c: "str_upper ascii_libs [] = []" by (simp add: ascii_eval)
  have d: "str_upper ascii_libs (py ''_'') = py ''_''" by (simp add: str_eval ascii_eval)
  have e: "[] \<notin> set (map fst bench_catalog)" by (simp add: bench_catalog_def py_def)
  have f: "\<forall>k\<in>set (map fst bench_catalog). py_round (token_sort_ratio ascii_libs [] k) < 70"
    by (simp add: bench_catalog_def ascii_scorer ratio_blank_bench_press py_round_def)
  have g: "py ''  '' \<noteq> []" by (simp add: py_def)
  from blank_name_unknown [OF a b c d e f] g show ?thesis by simp
qed

end
